theory Spec2Isabelle
  imports Complex_Main
begin

section \<open>Errors and control flow\<close>

text \<open>
  The Python exceptions the modelled code can raise. Python has a single \<open>IndexError\<close>;
  the index errors below tell which lookup raised it and carry the offending index: the
  first three are the lookups of
  \<^verbatim>\<open>params[index]*x_input[noise][i] + params[index+1]\<close>, then come
  \<^verbatim>\<open>reference.shape[k]\<close>, a row of the reference distribution,
  \<^verbatim>\<open>hamiltonians_list[ii]\<close> and any other index into a list or a numpy array.
\<close>

datatype error =
    ParamsIndexError nat
  | LatentRowIndexError nat
  | LatentColumnIndexError nat
  | ShapeIndexError nat
  | ReferenceIndexError nat
  | HamiltonianIndexError nat
  | ArrayIndexError
  | ZeroDivisionError
  | ValueError
  | OverflowError
  | UnboundLocalError

text \<open>
  A statement is a function from the state to an error or the next state; a block runs its
  statements in order and stops at the first exception.
\<close>

primrec block :: "('s \<Rightarrow> error + 's) list \<Rightarrow> 's \<Rightarrow> error + 's" where
  "block [] s = Inr s"
| "block (f # fs) s = (case f s of Inl e \<Rightarrow> Inl e | Inr s' \<Rightarrow> block fs s')"

text \<open>\<^verbatim>\<open>for k in ks: body(k)\<close>, the loop variable being passed to the body.\<close>

definition for_in :: "nat list \<Rightarrow> (nat \<Rightarrow> 's \<Rightarrow> error + 's) \<Rightarrow> 's \<Rightarrow> error + 's" where
  "for_in ks body = block (map body ks)"

section \<open>The parameter mapper: \<open>qGAN.set_params\<close>\<close>

text \<open>
  The local variables of \<^verbatim>\<open>set_params\<close>: the angle list \<open>p\<close>, the running indices
  \<open>index\<close> and \<open>noise\<close>, and the variable \<open>i\<close>, which is the sample index on entry and
  is rebound by the loop \<^verbatim>\<open>for i in range(0, self.nqubits-1)\<close>. The field \<open>sp_trace\<close> is
  a ghost: it records, in order, every angle the run emits (with the two parameter indices,
  the latent row and the latent column it read) and every advance of the noise index.
  Floating-point numbers are modelled as reals.
\<close>

datatype event = Angle nat nat nat nat | Advance nat

record sp_state =
  sp_p :: "real list"
  sp_index :: nat
  sp_noise :: nat
  sp_i :: nat
  sp_trace :: "event list"

text \<open>\<^verbatim>\<open>p.append(params[index]*x_input[noise][i] + params[index+1])\<close>\<close>

definition append_angle :: "real list \<Rightarrow> real list list \<Rightarrow> sp_state \<Rightarrow> error + sp_state" where
  "append_angle params x_input s =
     (if length params \<le> sp_index s then Inl (ParamsIndexError (sp_index s))
      else if length x_input \<le> sp_noise s then Inl (LatentRowIndexError (sp_noise s))
      else if length (x_input ! sp_noise s) \<le> sp_i s then Inl (LatentColumnIndexError (sp_i s))
      else if length params \<le> sp_index s + 1 then Inl (ParamsIndexError (sp_index s + 1))
      else Inr (s\<lparr>sp_p := sp_p s @
                    [params ! sp_index s * x_input ! sp_noise s ! sp_i s + params ! (sp_index s + 1)],
                  sp_trace := sp_trace s @
                    [Angle (sp_index s) (sp_index s + 1) (sp_noise s) (sp_i s)]\<rparr>))"

text \<open>\<^verbatim>\<open>index+=2\<close>\<close>

definition index_add2 :: "sp_state \<Rightarrow> error + sp_state" where
  "index_add2 s = Inr (s\<lparr>sp_index := sp_index s + 2\<rparr>)"

text \<open>\<^verbatim>\<open>noise=(noise+1)%self.latent_dim\<close>\<close>

definition next_noise :: "nat \<Rightarrow> sp_state \<Rightarrow> error + sp_state" where
  "next_noise latent_dim s =
     (if latent_dim = 0 then Inl ZeroDivisionError
      else Inr (s\<lparr>sp_noise := (sp_noise s + 1) mod latent_dim,
                  sp_trace := sp_trace s @ [Advance ((sp_noise s + 1) mod latent_dim)]\<rparr>))"

text \<open>The body of \<^verbatim>\<open>for q in range(self.nqubits)\<close> inside a layer: four angles.\<close>

definition qubit_body :: "nat \<Rightarrow> real list \<Rightarrow> real list list \<Rightarrow> sp_state \<Rightarrow> error + sp_state" where
  "qubit_body latent_dim params x_input =
     block [append_angle params x_input, index_add2, next_noise latent_dim,
            append_angle params x_input, index_add2,
            append_angle params x_input, index_add2, next_noise latent_dim,
            append_angle params x_input, index_add2, next_noise latent_dim]"

text \<open>One angle followed by an advance: the statements after the ring loop of a layer, and
  the body of the trailing loop.\<close>

definition angle_step :: "nat \<Rightarrow> real list \<Rightarrow> real list list \<Rightarrow> sp_state \<Rightarrow> error + sp_state" where
  "angle_step latent_dim params x_input =
     block [append_angle params x_input, index_add2, next_noise latent_dim]"

text \<open>The body of \<^verbatim>\<open>for i in range(0, self.nqubits-1)\<close>: the loop assigns \<open>i\<close>.\<close>

definition ring_body :: "nat \<Rightarrow> real list \<Rightarrow> real list list \<Rightarrow> nat \<Rightarrow> sp_state \<Rightarrow> error + sp_state" where
  "ring_body latent_dim params x_input k s = angle_step latent_dim params x_input (s\<lparr>sp_i := k\<rparr>)"

definition layer_body :: "nat \<Rightarrow> nat \<Rightarrow> real list \<Rightarrow> real list list \<Rightarrow> sp_state \<Rightarrow> error + sp_state" where
  "layer_body nqubits latent_dim params x_input =
     block [for_in [0..<nqubits] (\<lambda>q. qubit_body latent_dim params x_input),
            for_in [0..<nqubits - 1] (ring_body latent_dim params x_input),
            angle_step latent_dim params x_input]"

definition sp_init :: "nat \<Rightarrow> sp_state" where
  "sp_init i = \<lparr>sp_p = [], sp_index = 0, sp_noise = 0, sp_i = i, sp_trace = []\<rparr>"

text \<open>
  \<^verbatim>\<open>set_params(self, circuit, params, x_input, i)\<close> up to its last statement: the result is
  the state in which \<^verbatim>\<open>circuit.set_parameters(p)\<close> is called.
\<close>

definition set_params :: "nat \<Rightarrow> nat \<Rightarrow> nat \<Rightarrow> real list \<Rightarrow> real list list \<Rightarrow> nat \<Rightarrow> error + sp_state" where
  "set_params layers nqubits latent_dim params x_input i =
     block [for_in [0..<layers] (\<lambda>l. layer_body nqubits latent_dim params x_input),
            for_in [0..<nqubits] (\<lambda>q. angle_step latent_dim params x_input)]
       (sp_init i)"


section \<open>Reasoning about blocks and loops\<close>

text \<open>
  \<open>triple P f Q E\<close>: from a state satisfying \<open>P\<close>, the statement \<open>f\<close> either returns a
  state satisfying \<open>Q\<close> or raises an error satisfying \<open>E\<close>. With \<open>E\<close> false everywhere it
  says that \<open>f\<close> returns.
\<close>

definition triple :: "('s \<Rightarrow> bool) \<Rightarrow> ('s \<Rightarrow> error + 's) \<Rightarrow> ('s \<Rightarrow> bool) \<Rightarrow> (error \<Rightarrow> bool) \<Rightarrow> bool" where
  "triple P f Q E = (\<forall>s. P s \<longrightarrow> (case f s of Inl e \<Rightarrow> E e | Inr s' \<Rightarrow> Q s'))"

lemma tripleI:
  assumes "\<And>s. P s \<Longrightarrow> (case f s of Inl e \<Rightarrow> E e | Inr s' \<Rightarrow> Q s')"
  shows "triple P f Q E"
  using assms by (simp add: triple_def)

lemma tripleD:
  assumes "triple P f Q E" and "P s"
  shows "case f s of Inl e \<Rightarrow> E e | Inr s' \<Rightarrow> Q s'"
  using assms by (simp add: triple_def)

lemma triple_returns:
  assumes "triple P f Q (\<lambda>e. False)" and "P s"
  shows "\<exists>s'. f s = Inr s' \<and> Q s'"
  using tripleD[OF assms] by (cases "f s") simp_all

lemma triple_post_eq: "triple P f Q E \<Longrightarrow> Q = Q' \<Longrightarrow> triple P f Q' E"
  by simp

lemma triple_error_weaken:
  assumes "triple P f Q E" and "\<And>e. E e \<Longrightarrow> E' e"
  shows "triple P f Q E'"
  using assms unfolding triple_def by (auto split: sum.splits)

lemma block_append:
  "block (fs @ gs) s = (case block fs s of Inl e \<Rightarrow> Inl e | Inr s' \<Rightarrow> block gs s')"
  by (induction fs arbitrary: s) (auto split: sum.splits)

lemma triple_block_Nil: "triple P (block []) P E"
  by (simp add: triple_def)

lemma triple_block_Cons:
  assumes "triple P f Q E" and "triple Q (block fs) R E"
  shows "triple P (block (f # fs)) R E"
proof (rule tripleI)
  fix s assume "P s"
  with assms(1) have f: "case f s of Inl e \<Rightarrow> E e | Inr s' \<Rightarrow> Q s'"
    by (rule tripleD)
  show "case block (f # fs) s of Inl e \<Rightarrow> E e | Inr s' \<Rightarrow> R s'"
  proof (cases "f s")
    case (Inl e)
    with f show ?thesis by simp
  next
    case (Inr s1)
    with f have "Q s1" by simp
    with assms(2) have "case block fs s1 of Inl e \<Rightarrow> E e | Inr s' \<Rightarrow> R s'"
      by (rule tripleD)
    with Inr show ?thesis by simp
  qed
qed

lemma triple_block_snoc:
  assumes "triple P (block fs) Q E" and "triple Q f R E"
  shows "triple P (block (fs @ [f])) R E"
proof (rule tripleI)
  fix s assume "P s"
  with assms(1) have b: "case block fs s of Inl e \<Rightarrow> E e | Inr s' \<Rightarrow> Q s'"
    by (rule tripleD)
  show "case block (fs @ [f]) s of Inl e \<Rightarrow> E e | Inr s' \<Rightarrow> R s'"
  proof (cases "block fs s")
    case (Inl e)
    with b show ?thesis by (simp add: block_append)
  next
    case (Inr s1)
    with b have "Q s1" by simp
    with assms(2) have "case f s1 of Inl e \<Rightarrow> E e | Inr s' \<Rightarrow> R s'"
      by (rule tripleD)
    with Inr show ?thesis by (simp add: block_append split: sum.splits)
  qed
qed

text \<open>The loop rule: \<open>I k\<close> holds before iteration \<open>k\<close> and \<open>I n\<close> after the loop.\<close>

lemma triple_for_in:
  assumes "\<And>k. k < n \<Longrightarrow> triple (I k) (body k) (I (Suc k)) E"
  shows "triple (I 0) (for_in [0..<n] body) (I n) E"
  using assms
proof (induction n)
  case 0
  have "for_in [0..<0] body = block []"
    by (simp add: for_in_def)
  then show ?case
    by (simp only: triple_block_Nil)
next
  case (Suc n)
  have prev: "triple (I 0) (block (map body [0..<n])) (I n) E"
    using Suc by (simp add: for_in_def)
  have last: "triple (I n) (body n) (I (Suc n)) E"
    using Suc.prems by simp
  show ?case
    using triple_block_snoc[OF prev last] by (simp add: for_in_def)
qed

section \<open>What a run of \<open>set_params\<close> reads\<close>

datatype kind = EmitK | AdvK

fun kind_of :: "event \<Rightarrow> kind" where
  "kind_of (Angle a b nz c) = EmitK"
| "kind_of (Advance v) = AdvK"

fun param_reads :: "event list \<Rightarrow> nat list" where
  "param_reads [] = []"
| "param_reads (Angle a b nz c # es) = a # b # param_reads es"
| "param_reads (Advance v # es) = param_reads es"

fun event_ok :: "nat \<Rightarrow> event \<Rightarrow> bool" where
  "event_ok d (Angle a b nz c) = (b = a + 1 \<and> nz < d)"
| "event_ok d (Advance v) = (v < d)"

text \<open>
  Replaying a trace from the noise index \<open>cur\<close>: every angle reads the current noise
  index, every advance moves it to its successor modulo \<open>d\<close>; the result is the noise index
  at the end, or \<open>None\<close> when an event does not fit.
\<close>

fun noise_walk :: "nat \<Rightarrow> nat \<Rightarrow> event list \<Rightarrow> nat option" where
  "noise_walk d cur [] = Some cur"
| "noise_walk d cur (Angle a b nz c # es) = (if nz = cur then noise_walk d cur es else None)"
| "noise_walk d cur (Advance v # es) = (if v = (cur + 1) mod d then noise_walk d v es else None)"

definition rep :: "nat \<Rightarrow> 'a list \<Rightarrow> 'a list" where
  "rep k xs = concat (replicate k xs)"

definition qubit_kinds :: "kind list" where
  "qubit_kinds = [EmitK, AdvK, EmitK, EmitK, AdvK, EmitK, AdvK]"

definition slot_kinds :: "kind list" where
  "slot_kinds = [EmitK, AdvK]"

definition layer_kinds :: "nat \<Rightarrow> kind list" where
  "layer_kinds nqubits = rep nqubits qubit_kinds @ rep nqubits slot_kinds"

definition run_kinds :: "nat \<Rightarrow> nat \<Rightarrow> kind list" where
  "run_kinds layers nqubits = rep layers (layer_kinds nqubits) @ rep nqubits slot_kinds"

definition sp_inv :: "nat \<Rightarrow> nat \<Rightarrow> nat \<Rightarrow> nat \<Rightarrow> nat \<Rightarrow> kind list \<Rightarrow> sp_state \<Rightarrow> bool" where
  "sp_inv d n i a j ks s \<longleftrightarrow>
     length (sp_p s) = a \<and> sp_index s = j \<and> sp_noise s < d \<and>
     (sp_i s = i \<or> sp_i s < n - 1) \<and>
     map kind_of (sp_trace s) = ks \<and>
     param_reads (sp_trace s) = [0..<2 * a] \<and>
     list_all (event_ok d) (sp_trace s) \<and>
     noise_walk d 0 (sp_trace s) = Some (sp_noise s)"

definition column_error :: "real list list \<Rightarrow> nat \<Rightarrow> nat \<Rightarrow> error \<Rightarrow> bool" where
  "column_error x n i e \<longleftrightarrow>
     (\<exists>c. e = LatentColumnIndexError c \<and> (c = i \<or> c < n - 1) \<and> (\<exists>r\<in>set x. length r \<le> c))"

lemma rep_0: "rep 0 xs = []"
  by (simp add: rep_def)

lemma rep_Suc_snoc: "rep (Suc k) xs = rep k xs @ xs"
  unfolding rep_def by (induction k) simp_all

lemma param_reads_append: "param_reads (es @ fs) = param_reads es @ param_reads fs"
  by (induction es rule: param_reads.induct) auto

lemma noise_walk_append:
  "noise_walk d cur (es @ fs) =
     (case noise_walk d cur es of None \<Rightarrow> None | Some c \<Rightarrow> noise_walk d c fs)"
  by (induction d cur es rule: noise_walk.induct) auto

lemma triple_append_angle:
  assumes "length x = d" and "2 * a + 2 \<le> length params"
  shows "triple (sp_inv d n i a (2 * a) ks) (append_angle params x)
           (sp_inv d n i (Suc a) (2 * a) (ks @ [EmitK])) (column_error x n i)"
proof (rule tripleI)
  fix s assume s: "sp_inv d n i a (2 * a) ks s"
  have idx: "\<not> length params \<le> sp_index s" "\<not> length params \<le> sp_index s + 1"
    and row: "\<not> length x \<le> sp_noise s"
    using s assms by (simp_all add: sp_inv_def)
  have mem: "x ! sp_noise s \<in> set x"
    using row by simp
  show "case append_angle params x s of Inl e \<Rightarrow> column_error x n i e
        | Inr s' \<Rightarrow> sp_inv d n i (Suc a) (2 * a) (ks @ [EmitK]) s'"
  proof (cases "length (x ! sp_noise s) \<le> sp_i s")
    case True
    then have "append_angle params x s = Inl (LatentColumnIndexError (sp_i s))"
      using idx row by (simp add: append_angle_def)
    moreover have "column_error x n i (LatentColumnIndexError (sp_i s))"
      unfolding column_error_def using True mem s by (auto simp: sp_inv_def)
    ultimately show ?thesis by simp
  next
    case False
    then have "append_angle params x s = Inr (s\<lparr>sp_p := sp_p s @
                    [params ! sp_index s * x ! sp_noise s ! sp_i s + params ! (sp_index s + 1)],
                  sp_trace := sp_trace s @
                    [Angle (sp_index s) (sp_index s + 1) (sp_noise s) (sp_i s)]\<rparr>)"
      using idx row by (simp add: append_angle_def)
    moreover have "sp_inv d n i (Suc a) (2 * a) (ks @ [EmitK]) (s\<lparr>sp_p := sp_p s @
                    [params ! sp_index s * x ! sp_noise s ! sp_i s + params ! (sp_index s + 1)],
                  sp_trace := sp_trace s @
                    [Angle (sp_index s) (sp_index s + 1) (sp_noise s) (sp_i s)]\<rparr>)"
      using s by (simp add: sp_inv_def param_reads_append noise_walk_append)
    ultimately show ?thesis by simp
  qed
qed

lemma triple_index_add2:
  "triple (sp_inv d n i (Suc a) (2 * a) ks) index_add2 (sp_inv d n i (Suc a) (2 * Suc a) ks) E"
  by (rule tripleI) (simp add: index_add2_def sp_inv_def)

lemma triple_next_noise:
  "triple (sp_inv d n i a j ks) (next_noise d) (sp_inv d n i a j (ks @ [AdvK])) E"
proof (rule tripleI)
  fix s assume s: "sp_inv d n i a j ks s"
  then have "0 < d" by (auto simp: sp_inv_def)
  then show "case next_noise d s of Inl e \<Rightarrow> E e | Inr s' \<Rightarrow> sp_inv d n i a j (ks @ [AdvK]) s'"
    using s by (simp add: next_noise_def sp_inv_def param_reads_append noise_walk_append)
qed

lemma triple_qubit_body:
  assumes len: "length x = d" and "2 * a + 8 \<le> length params"
  shows "triple (sp_inv d n i a (2 * a) ks) (qubit_body d params x)
           (sp_inv d n i (a + 4) (2 * (a + 4)) (ks @ qubit_kinds)) (column_error x n i)"
proof -
  have b1: "2 * a + 2 \<le> length params" and b2: "2 * Suc a + 2 \<le> length params"
    and b3: "2 * Suc (Suc a) + 2 \<le> length params"
    and b4: "2 * Suc (Suc (Suc a)) + 2 \<le> length params"
    using assms(2) by simp_all
  have "triple (sp_inv d n i a (2 * a) ks) (qubit_body d params x)
          (sp_inv d n i (Suc (Suc (Suc (Suc a)))) (2 * Suc (Suc (Suc (Suc a))))
             (((((((ks @ [EmitK]) @ [AdvK]) @ [EmitK]) @ [EmitK]) @ [AdvK]) @ [EmitK]) @ [AdvK]))
          (column_error x n i)"
    unfolding qubit_body_def
    apply (rule triple_block_Cons[OF triple_append_angle[OF len b1]])
    apply (rule triple_block_Cons[OF triple_index_add2])
    apply (rule triple_block_Cons[OF triple_next_noise])
    apply (rule triple_block_Cons[OF triple_append_angle[OF len b2]])
    apply (rule triple_block_Cons[OF triple_index_add2])
    apply (rule triple_block_Cons[OF triple_append_angle[OF len b3]])
    apply (rule triple_block_Cons[OF triple_index_add2])
    apply (rule triple_block_Cons[OF triple_next_noise])
    apply (rule triple_block_Cons[OF triple_append_angle[OF len b4]])
    apply (rule triple_block_Cons[OF triple_index_add2])
    apply (rule triple_block_Cons[OF triple_next_noise])
    apply (rule triple_block_Nil)
    done
  then show ?thesis
    by (rule triple_post_eq) (simp add: qubit_kinds_def numeral_eq_Suc)
qed

lemma triple_angle_step:
  assumes len: "length x = d" and b: "2 * a + 2 \<le> length params"
  shows "triple (sp_inv d n i a (2 * a) ks) (angle_step d params x)
           (sp_inv d n i (Suc a) (2 * Suc a) (ks @ slot_kinds)) (column_error x n i)"
proof -
  have "triple (sp_inv d n i a (2 * a) ks) (angle_step d params x)
          (sp_inv d n i (Suc a) (2 * Suc a) ((ks @ [EmitK]) @ [AdvK])) (column_error x n i)"
    unfolding angle_step_def
    apply (rule triple_block_Cons[OF triple_append_angle[OF len b]])
    apply (rule triple_block_Cons[OF triple_index_add2])
    apply (rule triple_block_Cons[OF triple_next_noise])
    apply (rule triple_block_Nil)
    done
  then show ?thesis
    by (rule triple_post_eq) (simp add: slot_kinds_def)
qed

lemma triple_ring_body:
  assumes len: "length x = d" and b: "2 * a + 2 \<le> length params" and k: "k < n - 1"
  shows "triple (sp_inv d n i a (2 * a) ks) (ring_body d params x k)
           (sp_inv d n i (Suc a) (2 * Suc a) (ks @ slot_kinds)) (column_error x n i)"
proof (rule tripleI)
  fix s assume "sp_inv d n i a (2 * a) ks s"
  then have "sp_inv d n i a (2 * a) ks (s\<lparr>sp_i := k\<rparr>)"
    using k by (simp add: sp_inv_def)
  from tripleD[OF triple_angle_step[OF len b] this]
  show "case ring_body d params x k s of Inl e \<Rightarrow> column_error x n i e
        | Inr s' \<Rightarrow> sp_inv d n i (Suc a) (2 * Suc a) (ks @ slot_kinds) s'"
    by (simp add: ring_body_def)
qed

lemma triple_qubit_loop:
  assumes len: "length x = d" and "2 * a + 8 * m \<le> length params"
  shows "triple (sp_inv d n i a (2 * a) ks) (for_in [0..<m] (\<lambda>q. qubit_body d params x))
           (sp_inv d n i (a + 4 * m) (2 * (a + 4 * m)) (ks @ rep m qubit_kinds)) (column_error x n i)"
proof -
  let ?I = "\<lambda>k. sp_inv d n i (a + 4 * k) (2 * (a + 4 * k)) (ks @ rep k qubit_kinds)"
  have step: "triple (?I k) (qubit_body d params x) (?I (Suc k)) (column_error x n i)" if "k < m" for k
  proof -
    have "2 * (a + 4 * k) + 8 \<le> length params"
      using that assms(2) by simp
    from triple_qubit_body[OF len this, of n i "ks @ rep k qubit_kinds"]
    show ?thesis by (rule triple_post_eq) (simp add: rep_Suc_snoc ac_simps)
  qed
  have "triple (?I 0) (for_in [0..<m] (\<lambda>q. qubit_body d params x)) (?I m) (column_error x n i)"
    by (rule triple_for_in) (rule step)
  then show ?thesis by (simp add: rep_0)
qed

lemma triple_slot_loop:
  assumes len: "length x = d" and "2 * a + 2 * m \<le> length params"
  shows "triple (sp_inv d n i a (2 * a) ks) (for_in [0..<m] (\<lambda>q. angle_step d params x))
           (sp_inv d n i (a + m) (2 * (a + m)) (ks @ rep m slot_kinds)) (column_error x n i)"
proof -
  let ?I = "\<lambda>k. sp_inv d n i (a + k) (2 * (a + k)) (ks @ rep k slot_kinds)"
  have step: "triple (?I k) (angle_step d params x) (?I (Suc k)) (column_error x n i)" if "k < m" for k
  proof -
    have "2 * (a + k) + 2 \<le> length params"
      using that assms(2) by simp
    from triple_angle_step[OF len this, of n i "ks @ rep k slot_kinds"]
    show ?thesis by (rule triple_post_eq) (simp add: rep_Suc_snoc)
  qed
  have "triple (?I 0) (for_in [0..<m] (\<lambda>q. angle_step d params x)) (?I m) (column_error x n i)"
    by (rule triple_for_in) (rule step)
  then show ?thesis by (simp add: rep_0)
qed

lemma triple_ring_loop:
  assumes len: "length x = d" and "2 * a + 2 * (n - 1) \<le> length params"
  shows "triple (sp_inv d n i a (2 * a) ks) (for_in [0..<n - 1] (ring_body d params x))
           (sp_inv d n i (a + (n - 1)) (2 * (a + (n - 1))) (ks @ rep (n - 1) slot_kinds))
           (column_error x n i)"
proof -
  let ?I = "\<lambda>k. sp_inv d n i (a + k) (2 * (a + k)) (ks @ rep k slot_kinds)"
  have step: "triple (?I k) (ring_body d params x k) (?I (Suc k)) (column_error x n i)"
    if "k < n - 1" for k
  proof -
    have "2 * (a + k) + 2 \<le> length params"
      using that assms(2) by simp
    from triple_ring_body[OF len this that, of i "ks @ rep k slot_kinds"]
    show ?thesis by (rule triple_post_eq) (simp add: rep_Suc_snoc)
  qed
  have "triple (?I 0) (for_in [0..<n - 1] (ring_body d params x)) (?I (n - 1)) (column_error x n i)"
    by (rule triple_for_in) (rule step)
  then show ?thesis by (simp add: rep_0)
qed

lemma triple_layer_body:
  assumes len: "length x = d" and "2 * a + 10 * n \<le> length params" and n: "1 \<le> n"
  shows "triple (sp_inv d n i a (2 * a) ks) (layer_body n d params x)
           (sp_inv d n i (a + 5 * n) (2 * (a + 5 * n)) (ks @ layer_kinds n)) (column_error x n i)"
proof -
  have b1: "2 * a + 8 * n \<le> length params"
    and b2: "2 * (a + 4 * n) + 2 * (n - 1) \<le> length params"
    and b3: "2 * (a + 4 * n + (n - 1)) + 2 \<le> length params"
    using assms(2) n by simp_all
  have e: "Suc (a + 4 * n + (n - 1)) = a + 5 * n"
    using n by simp
  have "rep n slot_kinds = rep (n - 1) slot_kinds @ slot_kinds"
    using rep_Suc_snoc[of "n - 1" slot_kinds] n by simp
  then have k: "((ks @ rep n qubit_kinds) @ rep (n - 1) slot_kinds) @ slot_kinds = ks @ layer_kinds n"
    by (simp add: layer_kinds_def)
  have "triple (sp_inv d n i a (2 * a) ks) (layer_body n d params x)
          (sp_inv d n i (Suc (a + 4 * n + (n - 1))) (2 * Suc (a + 4 * n + (n - 1)))
             (((ks @ rep n qubit_kinds) @ rep (n - 1) slot_kinds) @ slot_kinds))
          (column_error x n i)"
    unfolding layer_body_def
    apply (rule triple_block_Cons[OF triple_qubit_loop[OF len b1]])
    apply (rule triple_block_Cons[OF triple_ring_loop[OF len b2]])
    apply (rule triple_block_Cons[OF triple_angle_step[OF len b3]])
    apply (rule triple_block_Nil)
    done
  then show ?thesis
    unfolding e k .
qed

lemma triple_layer_loop:
  assumes len: "length x = d" and "10 * layers * n \<le> length params" and n: "1 \<le> n"
  shows "triple (sp_inv d n i 0 0 []) (for_in [0..<layers] (\<lambda>l. layer_body n d params x))
           (sp_inv d n i (5 * layers * n) (2 * (5 * layers * n)) (rep layers (layer_kinds n)))
           (column_error x n i)"
proof -
  let ?I = "\<lambda>l. sp_inv d n i (5 * l * n) (2 * (5 * l * n)) (rep l (layer_kinds n))"
  have step: "triple (?I l) (layer_body n d params x) (?I (Suc l)) (column_error x n i)"
    if "l < layers" for l
  proof -
    have "Suc l * n \<le> layers * n"
      using that by (intro mult_le_mono1) simp
    then have "10 * (Suc l * n) \<le> 10 * (layers * n)" by simp
    then have "2 * (5 * l * n) + 10 * n \<le> length params"
      using assms(2) by (simp add: algebra_simps)
    from triple_layer_body[OF len this n, of i "rep l (layer_kinds n)"]
    show ?thesis by (rule triple_post_eq) (simp add: rep_Suc_snoc algebra_simps)
  qed
  have "triple (?I 0) (for_in [0..<layers] (\<lambda>l. layer_body n d params x)) (?I layers)
          (column_error x n i)"
    by (rule triple_for_in) (rule step)
  then show ?thesis by (simp add: rep_0)
qed

lemma sp_inv_init: "0 < d \<Longrightarrow> sp_inv d n i 0 0 [] (sp_init i)"
  by (simp add: sp_inv_def sp_init_def)

text \<open>Every run on a matrix of \<open>latent_dim\<close> rows: it returns, or a column lookup raised.\<close>

lemma set_params_run:
  assumes n: "1 \<le> n" and d: "0 < d" and p: "length params = 10 * layers * n + 2 * n"
    and len: "length x = d"
  shows "case set_params layers n d params x i of
           Inl e \<Rightarrow> column_error x n i e
         | Inr st \<Rightarrow> sp_inv d n i (5 * layers * n + n) (length params) (run_kinds layers n) st"
proof -
  have b1: "10 * layers * n \<le> length params"
    and b2: "2 * (5 * layers * n) + 2 * n \<le> length params"
    and e: "2 * (5 * layers * n + n) = length params"
    using p by simp_all
  have "triple (sp_inv d n i 0 0 [])
          (block [for_in [0..<layers] (\<lambda>l. layer_body n d params x),
                  for_in [0..<n] (\<lambda>q. angle_step d params x)])
          (sp_inv d n i (5 * layers * n + n) (2 * (5 * layers * n + n))
             (rep layers (layer_kinds n) @ rep n slot_kinds))
          (column_error x n i)"
    apply (rule triple_block_Cons[OF triple_layer_loop[OF len b1 n]])
    apply (rule triple_block_Cons[OF triple_slot_loop[OF len b2]])
    apply (rule triple_block_Nil)
    done
  from tripleD[OF this sp_inv_init[OF d]] show ?thesis
    unfolding set_params_def run_kinds_def e .
qed

lemma set_params_returns:
  assumes n: "1 \<le> n" and d: "0 < d" and p: "length params = 10 * layers * n + 2 * n"
    and len: "length x = d" and w: "\<forall>r\<in>set x. i < length r \<and> n - 1 \<le> length r"
  shows "\<exists>st. set_params layers n d params x i = Inr st \<and>
           sp_inv d n i (5 * layers * n + n) (length params) (run_kinds layers n) st"
proof (cases "set_params layers n d params x i")
  case (Inl e)
  with set_params_run[OF n d p len, of i] have "column_error x n i e" by simp
  then obtain c r where "c = i \<or> c < n - 1" and "r \<in> set x" and "length r \<le> c"
    by (auto simp: column_error_def)
  with w show ?thesis by fastforce
next
  case (Inr st)
  with set_params_run[OF n d p len, of i] show ?thesis by simp
qed











section \<open>The circuit template of \<open>qGAN.execute\<close>\<close>

datatype gate = RY int real | RZ int real | CRY int int real

fun gate_nparams :: "gate \<Rightarrow> nat" where
  "gate_nparams (RY q theta) = 1"
| "gate_nparams (RZ q theta) = 1"
| "gate_nparams (CRY c t theta) = 1"

definition angle_slots :: "gate list \<Rightarrow> nat" where
  "angle_slots c = sum_list (map gate_nparams c)"

definition add_rotations :: "nat \<Rightarrow> gate list \<Rightarrow> gate list" where
  "add_rotations q c = c @ [RY (int q) 0, RZ (int q) 0, RY (int q) 0, RZ (int q) 0]"

definition add_ring_gate :: "nat \<Rightarrow> gate list \<Rightarrow> gate list" where
  "add_ring_gate i c = c @ [CRY (int i) (int i + 1) 0]"

definition add_layer :: "nat \<Rightarrow> nat \<Rightarrow> gate list \<Rightarrow> gate list" where
  "add_layer nqubits l c =
     fold add_ring_gate [0..<nqubits - 1] (fold add_rotations [0..<nqubits] c)
       @ [CRY (int nqubits - 1) 0 0]"

definition add_final_rotation :: "nat \<Rightarrow> gate list \<Rightarrow> gate list" where
  "add_final_rotation q c = c @ [RY (int q) 0]"

definition circuit_template :: "nat \<Rightarrow> nat \<Rightarrow> gate list" where
  "circuit_template layers nqubits =
     fold add_final_rotation [0..<nqubits] (fold (add_layer nqubits) [0..<layers] [])"

lemma angle_slots_length: "angle_slots c = length c"
proof -
  have "gate_nparams g = 1" for g by (cases g) simp_all
  then show ?thesis by (induction c) (simp_all add: angle_slots_def)
qed

lemma length_fold_add:
  assumes "\<And>k c. length (f k c) = length c + m"
  shows "length (fold f ks c) = length c + m * length ks"
  by (induction ks arbitrary: c) (simp_all add: assms)

lemma length_add_layer:
  assumes "1 \<le> n"
  shows "length (add_layer n l c) = length c + 5 * n"
proof -
  have "length (fold add_rotations [0..<n] c) = length c + 4 * length [0..<n]"
    by (rule length_fold_add) (simp add: add_rotations_def)
  moreover have "length (fold add_ring_gate [0..<n - 1] (fold add_rotations [0..<n] c))
      = length (fold add_rotations [0..<n] c) + 1 * length [0..<n - 1]"
    by (rule length_fold_add) (simp add: add_ring_gate_def)
  ultimately show ?thesis
    using assms by (simp add: add_layer_def)
qed

lemma length_circuit_template:
  assumes "1 \<le> n"
  shows "length (circuit_template layers n) = 5 * layers * n + n"
proof -
  have "length (fold (add_layer n) [0..<layers] []) = length ([]::gate list) + 5 * n * length [0..<layers]"
    by (rule length_fold_add) (rule length_add_layer[OF assms])
  moreover have "length (fold add_final_rotation [0..<n] (fold (add_layer n) [0..<layers] []))
      = length (fold (add_layer n) [0..<layers] []) + 1 * length [0..<n]"
    by (rule length_fold_add) (simp add: add_final_rotation_def)
  ultimately show ?thesis
    by (simp add: circuit_template_def ac_simps)
qed

definition angles_of :: "error + sp_state \<Rightarrow> error + real list" where
  "angles_of r = (case r of Inl e \<Rightarrow> Inl e | Inr st \<Rightarrow> Inr (sp_p st))"

definition trace_of :: "error + sp_state \<Rightarrow> event list" where
  "trace_of r = (case r of Inl e \<Rightarrow> [] | Inr st \<Rightarrow> sp_trace st)"

lemmas sp_eval = set_params_def layer_body_def for_in_def qubit_body_def angle_step_def ring_body_def
     append_angle_def index_add2_def next_noise_def sp_init_def upt_conv_Cons

text \<open>
  C1. The statement that \<open>set_params\<close> consumes the parameter vector for every
  \<open>layers\<close>, \<open>nqubits\<close>, \<open>latent_dim\<close> at least 1 fails on the code. With one layer, three
  qubits, one latent dimension, the 36 parameters \<open>0, 1, ..., 35\<close> and a latent matrix of
  one sample (\<open>i = 0\<close>), the run raises \<open>IndexError\<close> at \<^verbatim>\<open>x_input[noise][i]\<close>: the loop
  \<^verbatim>\<open>for i in range(0, self.nqubits-1)\<close> has rebound \<open>i\<close> to 1, and the matrix has no
  column 1. The twelve angles of the qubit loop and the first ring angle have been emitted,
  and the running index is 26 of 36. With a second sample in the matrix the same run
  returns with the index at 36; from the fourteenth angle on it reads the second sample.
\<close>

theorem set_params_raises_before_parameter_vector_is_consumed:
  "length (map real [0..<36]) = 10 * 1 * 3 + 2 * 3 \<and>
   set_params 1 3 1 (map real [0..<36]) [[5]] 0 = Inl (LatentColumnIndexError 1) \<and>
   (case block [for_in [0..<3] (\<lambda>q. qubit_body 1 (map real [0..<36]) [[5]]),
                ring_body 1 (map real [0..<36]) [[5]] 0] (sp_init 0) of
      Inl e \<Rightarrow> False
    | Inr s \<Rightarrow> sp_index s = 26 \<and> sp_noise s = 0 \<and> sp_i s = 0 \<and>
        sp_p s = [1, 13, 25, 37, 49, 61, 73, 85, 97, 109, 121, 133, 145] \<and>
        ring_body 1 (map real [0..<36]) [[5]] 1 s = Inl (LatentColumnIndexError 1)) \<and>
   (case set_params 1 3 1 (map real [0..<36]) [[5, 7]] 0 of
      Inl e \<Rightarrow> False
    | Inr s \<Rightarrow> sp_index s = 36 \<and>
        sp_p s = [1, 13, 25, 37, 49, 61, 73, 85, 97, 109, 121, 133, 145,
                  209, 225, 241, 257, 273])"
  by (simp add: sp_eval)

text \<open>
  What holds in general. For \<open>layers\<close>, \<open>nqubits\<close>, \<open>latent_dim\<close> at least 1, a parameter
  vector of length \<open>10*layers*nqubits + 2*nqubits\<close> and a latent matrix of \<open>latent_dim\<close>
  rows, a run of \<open>set_params\<close> that returns has read the parameter indices \<open>0, 1, ..., length params - 1\<close>
  in this order, two consecutive ones per angle (\<open>event_ok\<close>: the bias index is the scale
  index plus one), ends with \<open>index = length params\<close> after \<open>5*layers*nqubits + nqubits\<close>
  angles, and every noise index it read or assigned is below \<open>latent_dim\<close>. The only
  exception a run can raise is the lookup of a column of the latent matrix (never a lookup
  in the parameter vector or of a latent row), and the run returns whenever every latent
  row holds column \<open>i\<close> and the columns \<open>0 .. nqubits-2\<close> that the ring loop reads.
\<close>

lemma set_params_run_reads_in_order:
  assumes "1 \<le> layers" and "1 \<le> nqubits" and "1 \<le> latent_dim"
    and "length params = 10 * layers * nqubits + 2 * nqubits"
    and "length x_input = latent_dim"
  shows "(case set_params layers nqubits latent_dim params x_input i of
            Inl e \<Rightarrow> column_error x_input nqubits i e
          | Inr st \<Rightarrow>
              sp_index st = length params \<and>
              param_reads (sp_trace st) = [0..<length params] \<and>
              list_all (event_ok latent_dim) (sp_trace st) \<and>
              length (sp_p st) = 5 * layers * nqubits + nqubits) \<and>
         ((\<forall>row\<in>set x_input. i < length row \<and> nqubits - 1 \<le> length row) \<longrightarrow>
            (\<exists>st. set_params layers nqubits latent_dim params x_input i = Inr st))"
proof (intro conjI impI)
  have d: "0 < latent_dim" using assms(3) by simp
  have e: "2 * (5 * layers * nqubits + nqubits) = length params"
    using assms(4) by simp
  note run = set_params_run[OF assms(2) d assms(4,5), of i]
  show "case set_params layers nqubits latent_dim params x_input i of
            Inl e \<Rightarrow> column_error x_input nqubits i e
          | Inr st \<Rightarrow>
              sp_index st = length params \<and>
              param_reads (sp_trace st) = [0..<length params] \<and>
              list_all (event_ok latent_dim) (sp_trace st) \<and>
              length (sp_p st) = 5 * layers * nqubits + nqubits"
  proof (cases "set_params layers nqubits latent_dim params x_input i")
    case (Inl err)
    with run show ?thesis by simp
  next
    case (Inr st)
    with run have inv: "sp_inv latent_dim nqubits i (5 * layers * nqubits + nqubits) (length params)
        (run_kinds layers nqubits) st" by simp
    then have "param_reads (sp_trace st) = [0..<2 * (5 * layers * nqubits + nqubits)]"
      by (simp add: sp_inv_def)
    then have "param_reads (sp_trace st) = [0..<length params]"
      unfolding e .
    with inv Inr show ?thesis by (simp add: sp_inv_def)
  qed
  assume "\<forall>row\<in>set x_input. i < length row \<and> nqubits - 1 \<le> length row"
  from set_params_returns[OF assms(2) d assms(4,5) this]
  show "\<exists>st. set_params layers nqubits latent_dim params x_input i = Inr st"
    by blast
qed

text \<open>One layer, two qubits, two latent rows and sample 1 of 2.\<close>

lemma set_params_run_reads_in_order_example:
  "\<exists>st. set_params 1 2 2 (replicate 24 1) [[1, 2], [3, 4]] 1 = Inr st \<and>
        sp_index st = 24 \<and> param_reads (sp_trace st) = [0..<24] \<and>
        list_all (event_ok 2) (sp_trace st) \<and> length (sp_p st) = 12"
  using set_params_run_reads_in_order[of 1 2 2 "replicate 24 1" "[[1, 2], [3, 4]]" 1]
  by (auto split: sum.splits)




subsection \<open>The noise schedule\<close>

text \<open>
  The schedule as the specification words it: for each qubit four angles, with an advance
  of the noise index after the first, second and third but not after the fourth; then
  \<open>nqubits\<close> ring angles, each followed by an advance; after the layers one angle per qubit
  (followed by an advance, as in the code: the specification does not say).
\<close>

definition spec_qubit_kinds :: "kind list" where
  "spec_qubit_kinds = [EmitK, AdvK, EmitK, AdvK, EmitK, AdvK, EmitK]"

definition spec_run_kinds :: "nat \<Rightarrow> nat \<Rightarrow> kind list" where
  "spec_run_kinds layers nqubits =
     rep layers (rep nqubits spec_qubit_kinds @ rep nqubits slot_kinds) @ rep nqubits slot_kinds"

text \<open>
  C3, as stated, fails: with one layer, one qubit and five latent rows the run advances the
  noise index after the first, third and fourth angle of the qubit and not after the second,
  so the second and third angle read the same latent row 1.
\<close>

theorem set_params_noise_schedule_counterexample:
  "set_params 1 1 5 (replicate 12 1) [[1], [2], [3], [4], [5]] 0 =
     Inr \<lparr>sp_p = [2, 3, 3, 4, 5, 6], sp_index = 12, sp_noise = 0, sp_i = 0,
          sp_trace = [Angle 0 1 0 0, Advance 1, Angle 2 3 1 0, Angle 4 5 1 0, Advance 2,
                      Angle 6 7 2 0, Advance 3, Angle 8 9 3 0, Advance 4,
                      Angle 10 11 4 0, Advance 0]\<rparr> \<and>
   map kind_of (trace_of (set_params 1 1 5 (replicate 12 1) [[1], [2], [3], [4], [5]] 0)) =
     [EmitK, AdvK, EmitK, EmitK, AdvK, EmitK, AdvK, EmitK, AdvK, EmitK, AdvK] \<and>
   spec_run_kinds 1 1 =
     [EmitK, AdvK, EmitK, AdvK, EmitK, AdvK, EmitK, EmitK, AdvK, EmitK, AdvK] \<and>
   map kind_of (trace_of (set_params 1 1 5 (replicate 12 1) [[1], [2], [3], [4], [5]] 0)) \<noteq>
     spec_run_kinds 1 1"
  by (simp add: sp_eval trace_of_def spec_run_kinds_def spec_qubit_kinds_def slot_kinds_def rep_def)

text \<open>
  C3, amended. In every run that returns, the events are, for each layer, for each qubit
  \<open>angle, advance, angle, angle, advance, angle, advance\<close> (\<open>qubit_kinds\<close>: the noise index
  advances after the first, third and fourth angle, not after the second), then \<open>nqubits\<close>
  times \<open>angle, advance\<close>; after the layers \<open>nqubits\<close> times \<open>angle, advance\<close>. Every angle
  reads the current noise index, which starts at 0, and every advance sets it to its
  successor modulo \<open>latent_dim\<close> (\<open>noise_walk\<close>).
\<close>

theorem set_params_noise_schedule:
  assumes "1 \<le> layers" and "1 \<le> nqubits" and "1 \<le> latent_dim"
    and "length params = 10 * layers * nqubits + 2 * nqubits"
    and "length x_input = latent_dim"
  shows "(\<forall>st. set_params layers nqubits latent_dim params x_input i = Inr st \<longrightarrow>
            map kind_of (sp_trace st) = run_kinds layers nqubits \<and>
            noise_walk latent_dim 0 (sp_trace st) = Some (sp_noise st)) \<and>
         ((\<forall>row\<in>set x_input. i < length row \<and> nqubits - 1 \<le> length row) \<longrightarrow>
            (\<exists>st. set_params layers nqubits latent_dim params x_input i = Inr st))"
proof (intro conjI allI impI)
  have d: "0 < latent_dim" using assms(3) by simp
  note run = set_params_run[OF assms(2) d assms(4,5), of i]
  fix st assume "set_params layers nqubits latent_dim params x_input i = Inr st"
  with run have inv: "sp_inv latent_dim nqubits i (5 * layers * nqubits + nqubits) (length params)
      (run_kinds layers nqubits) st" by simp
  then show "map kind_of (sp_trace st) = run_kinds layers nqubits"
    by (simp add: sp_inv_def)
  from inv show "noise_walk latent_dim 0 (sp_trace st) = Some (sp_noise st)"
    by (simp add: sp_inv_def)
next
  have d: "0 < latent_dim" using assms(3) by simp
  assume "\<forall>row\<in>set x_input. i < length row \<and> nqubits - 1 \<le> length row"
  from set_params_returns[OF assms(2) d assms(4,5) this]
  show "\<exists>st. set_params layers nqubits latent_dim params x_input i = Inr st"
    by blast
qed

text \<open>The amended schedule at one layer, two qubits and three latent rows.\<close>

theorem set_params_noise_schedule_witness:
  "\<exists>st. set_params 1 2 3 (replicate 24 1) [[1, 2], [3, 4], [5, 6]] 1 = Inr st \<and>
        map kind_of (sp_trace st) = run_kinds 1 2 \<and>
        noise_walk 3 0 (sp_trace st) = Some (sp_noise st)"
  using set_params_noise_schedule[of 1 2 3 "replicate 24 1" "[[1, 2], [3, 4], [5, 6]]" 1]
  by auto

text \<open>
  C4. Two latent matrices that agree on column 1 (the latent vector of sample 1) and differ
  on column 0 give different angle lists for sample 1: the loop
  \<^verbatim>\<open>for i in range(0, self.nqubits-1)\<close> rebinds \<open>i\<close>, so the ring angles and every angle
  after them read the columns \<open>0 .. nqubits-2\<close> instead of the column of the sample.
\<close>

theorem set_params_reads_other_samples:
  "angles_of (set_params 1 2 1 [1, 0, 1, 0, 1, 0, 1, 0, 1, 0, 1, 0, 1, 0, 1, 0, 1, 0, 1, 0, 1, 0, 1, 0]
      [[10, 2]] 1) = Inr [2, 2, 2, 2, 2, 2, 2, 2, 10, 10, 10, 10] \<and>
   angles_of (set_params 1 2 1 [1, 0, 1, 0, 1, 0, 1, 0, 1, 0, 1, 0, 1, 0, 1, 0, 1, 0, 1, 0, 1, 0, 1, 0]
      [[30, 2]] 1) = Inr [2, 2, 2, 2, 2, 2, 2, 2, 30, 30, 30, 30]"
  by (simp add: sp_eval angles_of_def)

section \<open>The training pipeline of the qGAN\<close>

subsection \<open>Arrays\<close>

type_synonym matrix = "real list list"

text \<open>
  A numpy array of any number of axes: its shape and its entries in row-major order. The
  reference distribution is one; \<open>nd_row a k\<close> is \<^verbatim>\<open>a[k,:]\<close>, the entries under index
  \<open>k\<close> of the first axis.
\<close>

record ndarray =
  nd_shape :: "nat list"
  nd_data :: "real list"

definition shape_at :: "ndarray \<Rightarrow> nat \<Rightarrow> error + nat" where
  "shape_at a k = (if k < length (nd_shape a) then Inr (nd_shape a ! k) else Inl (ShapeIndexError k))"

definition row_size :: "ndarray \<Rightarrow> nat" where
  "row_size a = prod_list (tl (nd_shape a))"

definition nd_row :: "ndarray \<Rightarrow> nat \<Rightarrow> error + real list" where
  "nd_row a k =
     (if k < hd (nd_shape a) then Inr (take (row_size a) (drop (k * row_size a) (nd_data a)))
      else Inl (ReferenceIndexError k))"

text \<open>\<^verbatim>\<open>x.reshape(rows, cols)\<close> of a flat array, and \<^verbatim>\<open>np.transpose\<close> of a matrix with
  \<open>ncols\<close> columns (a list of rows does not carry the column count when there is no row).\<close>

definition reshape :: "nat \<Rightarrow> nat \<Rightarrow> real list \<Rightarrow> error + matrix" where
  "reshape rows cols xs =
     (if length xs = rows * cols then Inr (map (\<lambda>r. take cols (drop (r * cols) xs)) [0..<rows])
      else Inl ValueError)"

definition np_transpose :: "nat \<Rightarrow> matrix \<Rightarrow> matrix" where
  "np_transpose ncols m = map (\<lambda>c. map (\<lambda>row. row ! c) m) [0..<ncols]"

definition np_ones :: "nat \<Rightarrow> matrix" where
  "np_ones samples = replicate samples [1]"

definition np_zeros :: "nat \<Rightarrow> matrix" where
  "np_zeros samples = replicate samples [0]"

subsection \<open>Sequencing\<close>

definition and_then :: "error + 'a \<Rightarrow> ('a \<Rightarrow> error + 'b) \<Rightarrow> error + 'b" where
  "and_then m f = (case m of Inl e \<Rightarrow> Inl e | Inr v \<Rightarrow> f v)"

primrec collect :: "('k \<Rightarrow> error + 'a) \<Rightarrow> 'k list \<Rightarrow> error + 'a list" where
  "collect f [] = Inr []"
| "collect f (k # ks) = and_then (f k) (\<lambda>v. and_then (collect f ks) (\<lambda>vs. Inr (v # vs)))"

subsection \<open>The model object and its collaborators\<close>

text \<open>The attributes \<^verbatim>\<open>__init__\<close> sets. Counts are natural numbers.\<close>

record qgan =
  reference :: ndarray
  nqubits :: nat
  layers :: nat
  latent_dim :: nat
  training_samples :: nat
  batch_samples :: nat
  n_epochs :: nat
  lr :: real

definition qGAN_init :: "ndarray \<Rightarrow> nat \<Rightarrow> nat \<Rightarrow> nat \<Rightarrow> nat \<Rightarrow> real \<Rightarrow> error + qgan" where
  "qGAN_init ref l ld bs ne rate =
     and_then (shape_at ref 1) (\<lambda>nq.
     and_then (shape_at ref 0) (\<lambda>ts.
       Inr \<lparr>reference = ref, nqubits = nq, layers = l, latent_dim = ld,
            training_samples = ts, batch_samples = bs, n_epochs = ne, lr = rate\<rparr>))"


text \<open>
  The observables of \<^verbatim>\<open>execute\<close>: \<^verbatim>\<open>np.kron\<close>, the matrix of
  \<^verbatim>\<open>hamiltonians.Z(1)\<close> and the constructor \<^verbatim>\<open>hamiltonians.Hamiltonian\<close> belong to
  the simulator and are kept as constructors.
\<close>

datatype mat = Identity | Z_matrix | Kron mat mat

datatype hamiltonian = Hamiltonian nat mat

text \<open>
  The external collaborators, as parameters: numpy's global random generator (state \<open>'r\<close>),
  the quantum simulator (states \<open>'q\<close>), the Keras discriminator (weights \<open>'d\<close>), the
  Adadelta optimizer (state \<open>'o\<close>), TensorFlow's loss, mean and gradient tape, and Python's
  formatting of the float \<open>lr\<close>. They are taken to return; what they return is arbitrary.
  The tape differentiates the computation it recorded, given as a function of the
  parameter vector.
\<close>

record ('d, 'o, 'q, 'r) env =
  randn :: "nat \<Rightarrow> 'r \<Rightarrow> real list \<times> 'r"
  randint :: "nat \<Rightarrow> nat \<Rightarrow> 'r \<Rightarrow> nat list \<times> 'r"
  uniform :: "real \<Rightarrow> real \<Rightarrow> nat \<Rightarrow> 'r \<Rightarrow> real list \<times> 'r"
  circuit_execute :: "gate list \<Rightarrow> 'q"
  expectation :: "hamiltonian \<Rightarrow> 'q \<Rightarrow> real"
  define_discriminator :: "nat \<Rightarrow> 'd"
  train_on_batch :: "'d \<Rightarrow> matrix \<Rightarrow> matrix \<Rightarrow> (real \<times> real) \<times> 'd"
  discriminator_call :: "'d \<Rightarrow> matrix \<Rightarrow> matrix"
  binary_crossentropy :: "matrix \<Rightarrow> matrix \<Rightarrow> real list"
  reduce_mean :: "real list \<Rightarrow> real"
  adadelta :: "real \<Rightarrow> 'o"
  tape_gradient :: "(real list \<Rightarrow> error + real) \<Rightarrow> real list \<Rightarrow> real list"
  apply_gradients :: "'o \<Rightarrow> real list \<Rightarrow> real list \<Rightarrow> real list \<times> 'o"
  str_float :: "real \<Rightarrow> string"

text \<open>
  Modelled from the spec: \<^verbatim>\<open>Circuit.set_parameters\<close> of the simulator, which is not part
  of the sources. It overwrites the angle of every gate slot of the template, in order, and
  leaves the structure alone; the angle list must have one entry per slot.
\<close>

fun set_angle :: "gate \<Rightarrow> real \<Rightarrow> gate" where
  "set_angle (RY q old) theta = RY q theta"
| "set_angle (RZ q old) theta = RZ q theta"
| "set_angle (CRY c t old) theta = CRY c t theta"

definition set_parameters :: "real list \<Rightarrow> gate list \<Rightarrow> error + gate list" where
  "set_parameters p circuit =
     (if length p = angle_slots circuit then Inr (map2 set_angle circuit p) else Inl ValueError)"

subsection \<open>Sampling\<close>

text \<open>\<^verbatim>\<open>generate_latent_points\<close>: \<open>latent_dim * samples\<close> normal draws, reshaped.\<close>

definition generate_latent_points ::
  "('d, 'o, 'q, 'r) env \<Rightarrow> qgan \<Rightarrow> nat \<Rightarrow> 'r \<Rightarrow> error + matrix \<times> 'r" where
  "generate_latent_points E self samples rng =
     (case randn E (latent_dim self * samples) rng of (x_input, rng') \<Rightarrow>
        and_then (reshape samples (latent_dim self) x_input) (\<lambda>m. Inr (m, rng')))"

text \<open>
  The loop of \<^verbatim>\<open>generate_fake_samples\<close> over the samples works on the lists \<open>X\<close> (one per
  qubit) and on the circuit, whose angles \<^verbatim>\<open>set_params\<close> overwrites.
\<close>

record fake_state =
  fk_X :: matrix
  fk_circuit :: "gate list"

definition append_expectation ::
  "('d, 'o, 'q, 'r) env \<Rightarrow> hamiltonian list \<Rightarrow> 'q \<Rightarrow> nat \<Rightarrow> fake_state \<Rightarrow> error + fake_state" where
  "append_expectation E hamiltonians_list circuit_exec ii s =
     (if length (fk_X s) \<le> ii then Inl ArrayIndexError
      else if length hamiltonians_list \<le> ii then Inl (HamiltonianIndexError ii)
      else Inr (s\<lparr>fk_X := (fk_X s)[ii := fk_X s ! ii @
                         [expectation E (hamiltonians_list ! ii) circuit_exec]]\<rparr>))"

definition fake_sample ::
  "('d, 'o, 'q, 'r) env \<Rightarrow> qgan \<Rightarrow> real list \<Rightarrow> matrix \<Rightarrow> hamiltonian list \<Rightarrow> nat \<Rightarrow>
     fake_state \<Rightarrow> error + fake_state" where
  "fake_sample E self params x_input hamiltonians_list i s =
     and_then (set_params (layers self) (nqubits self) (latent_dim self) params x_input i) (\<lambda>st.
     and_then (set_parameters (sp_p st) (fk_circuit s)) (\<lambda>circuit.
       for_in [0..<nqubits self]
         (append_expectation E hamiltonians_list (circuit_execute E circuit))
         (s\<lparr>fk_circuit := circuit\<rparr>)))"

text \<open>\<^verbatim>\<open>tf.stack([X[i] for i in range(len(X))], axis=1)\<close>: one row per sample.\<close>

definition tf_stack_axis1 :: "nat \<Rightarrow> matrix \<Rightarrow> error + matrix" where
  "tf_stack_axis1 samples X =
     (if X = [] then Inl ValueError
      else Inr (map (\<lambda>k. map (\<lambda>col. col ! k) X) [0..<samples]))"

definition generate_fake_samples ::
  "('d, 'o, 'q, 'r) env \<Rightarrow> qgan \<Rightarrow> real list \<Rightarrow> nat \<Rightarrow> gate list \<Rightarrow> hamiltonian list \<Rightarrow> 'r \<Rightarrow>
     error + (matrix \<times> matrix) \<times> gate list \<times> 'r" where
  "generate_fake_samples E self params samples circuit hamiltonians_list rng =
     and_then (generate_latent_points E self samples rng) (\<lambda>(x_input, rng').
     and_then (for_in [0..<samples]
                 (fake_sample E self params (np_transpose (latent_dim self) x_input) hamiltonians_list)
                 \<lparr>fk_X = replicate (nqubits self) [], fk_circuit = circuit\<rparr>) (\<lambda>s.
     and_then (tf_stack_axis1 samples (fk_X s)) (\<lambda>X.
       Inr ((X, np_zeros samples), fk_circuit s, rng'))))"

text \<open>
  \<^verbatim>\<open>generate_real_samples\<close>, the local function of \<^verbatim>\<open>train\<close>:
  \<^verbatim>\<open>np.random.randint(real_samples, size=samples)\<close> raises \<open>ValueError\<close> when
  \<open>real_samples\<close> is 0 and at least one index is asked for; with \<open>samples = 0\<close> it returns
  an empty array, and \<open>X\<close> has no rows.
\<close>

definition generate_real_samples ::
  "('d, 'o, 'q, 'r) env \<Rightarrow> nat \<Rightarrow> ndarray \<Rightarrow> nat \<Rightarrow> 'r \<Rightarrow> error + (matrix \<times> matrix) \<times> 'r" where
  "generate_real_samples E samples distribution real_samples rng =
     (if real_samples = 0 \<and> 0 < samples then Inl ValueError
      else case randint E real_samples samples rng of (idx, rng') \<Rightarrow>
        and_then (collect (nd_row distribution) idx) (\<lambda>X. Inr ((X, np_ones samples), rng')))"

subsection \<open>The generator loss\<close>

definition define_cost_gan ::
  "('d, 'o, 'q, 'r) env \<Rightarrow> qgan \<Rightarrow> real list \<Rightarrow> 'd \<Rightarrow> nat \<Rightarrow> gate list \<Rightarrow> hamiltonian list \<Rightarrow> 'r \<Rightarrow>
     error + real \<times> gate list \<times> 'r" where
  "define_cost_gan E self params discriminator samples circuit hamiltonians_list rng =
     and_then (generate_fake_samples E self params samples circuit hamiltonians_list rng)
       (\<lambda>((x_fake, y_fake0), circuit', rng').
          let y_fake = np_ones samples;
              disc_output = discriminator_call E discriminator x_fake;
              loss = binary_crossentropy E y_fake disc_output
          in Inr (reduce_mean E loss, circuit', rng'))"

subsection \<open>Checkpoints\<close>

text \<open>Python's \<^verbatim>\<open>str\<close> of a natural number.\<close>

definition digit :: "nat \<Rightarrow> char" where
  "digit k = ''0123456789'' ! k"

fun str_nat :: "nat \<Rightarrow> string" where
  "str_nat k = (if k < 10 then [digit k] else str_nat (k div 10) @ [digit (k mod 10)])"

datatype 'd artifact = NumericText "real list" | WeightsH5 'd

definition hyperparameters :: "('d, 'o, 'q, 'r) env \<Rightarrow> qgan \<Rightarrow> string" where
  "hyperparameters E self =
     str_nat (nqubits self) @ ''_'' @ str_nat (latent_dim self) @ ''_'' @ str_nat (layers self) @ ''_'' @
     str_nat (training_samples self) @ ''_'' @ str_nat (batch_samples self) @ ''_'' @
     str_float E (lr self)"

definition params_file :: "('d, 'o, 'q, 'r) env \<Rightarrow> qgan \<Rightarrow> string" where
  "params_file E self = ''PARAMS_3Dgaussian_'' @ hyperparameters E self"

definition dloss_file :: "('d, 'o, 'q, 'r) env \<Rightarrow> qgan \<Rightarrow> string" where
  "dloss_file E self = ''dloss_3Dgaussian_'' @ hyperparameters E self"

definition gloss_file :: "('d, 'o, 'q, 'r) env \<Rightarrow> qgan \<Rightarrow> string" where
  "gloss_file E self = ''gloss_3Dgaussian_'' @ hyperparameters E self"

definition weights_file :: "('d, 'o, 'q, 'r) env \<Rightarrow> qgan \<Rightarrow> string" where
  "weights_file E self = ''discriminator_3Dgaussian_'' @ hyperparameters E self @ ''.h5''"

subsection \<open>The training loop\<close>

text \<open>
  The state of \<^verbatim>\<open>train\<close>: its local variables, the objects it mutates (discriminator,
  circuit, random generator) and the files on disk.
\<close>

record ('d, 'o, 'r) train_state =
  d_model :: 'd
  optimizer :: 'o
  initial_params :: "real list"
  circuit :: "gate list"
  d_loss :: "real list"
  g_loss :: "real list"
  rng :: 'r
  files :: "string \<rightharpoonup> 'd artifact"

text \<open>
  \<^verbatim>\<open>int(self.batch_samples / 2)\<close>. The quotient of two Python ints by \<^verbatim>\<open>/\<close> is a
  double: the one nearest to the exact quotient, a tie going to the even significand; \<open>int\<close>
  then truncates it. A double has a significand of 53 bits. With \<open>b\<close> the number of bits
  of \<open>n\<close> (\<^verbatim>\<open>n.bit_length()\<close>), the quotient \<open>n / 2\<close> is a double when \<open>b \<le> 53\<close>, and its
  truncation is \<open>n div 2\<close>; otherwise the \<open>b - 53\<close> low bits of \<open>n\<close> are rounded away
  (\<open>round_half_even\<close>), which leaves a whole number. The division raises
  \<open>OverflowError\<close> when the rounded quotient is \<open>2 ^ 1024\<close> or more; \<open>train\<close> below has this
  branch.
\<close>

fun bit_length :: "nat \<Rightarrow> nat" where
  "bit_length n = (if n = 0 then 0 else Suc (bit_length (n div 2)))"

declare bit_length.simps [simp del]

definition round_half_even :: "nat \<Rightarrow> nat \<Rightarrow> nat" where
  "round_half_even n shift =
     (let q = n div 2 ^ shift; r = n mod 2 ^ shift
      in if 2 ^ shift < 2 * r \<or> (2 * r = 2 ^ shift \<and> odd q) then q + 1 else q)"

definition int_true_div2 :: "nat \<Rightarrow> nat" where
  "int_true_div2 n =
     (if bit_length n \<le> 53 then n div 2
      else round_half_even n (bit_length n - 53) * 2 ^ (bit_length n - 54))"

definition half_samples :: "qgan \<Rightarrow> nat" where
  "half_samples self = int_true_div2 (batch_samples self)"

text \<open>The body of \<^verbatim>\<open>for i in range(self.n_epochs)\<close>.\<close>

definition epoch ::
  "('d, 'o, 'q, 'r) env \<Rightarrow> qgan \<Rightarrow> hamiltonian list \<Rightarrow> nat \<Rightarrow>
     ('d, 'o, 'r) train_state \<Rightarrow> error + ('d, 'o, 'r) train_state" where
  "epoch E self hamiltonians_list i s =
     and_then (generate_real_samples E (half_samples self) (reference self) (training_samples self) (rng s))
       (\<lambda>((x_real, y_real), rng1).
     and_then (generate_fake_samples E self (initial_params s) (half_samples self) (circuit s)
                 hamiltonians_list rng1)
       (\<lambda>((x_fake, y_fake), circuit1, rng2).
     case train_on_batch E (d_model s) x_real y_real of ((d_loss_real, acc_real), d1) \<Rightarrow>
     case train_on_batch E d1 x_fake y_fake of ((d_loss_fake, acc_fake), d2) \<Rightarrow>
     and_then (define_cost_gan E self (initial_params s) d2 (batch_samples self) circuit1
                 hamiltonians_list rng2)
       (\<lambda>(loss, circuit2, rng3).
     let grads = tape_gradient E
                   (\<lambda>ps. and_then (define_cost_gan E self ps d2 (batch_samples self) circuit1
                                      hamiltonians_list rng2) (\<lambda>(l, c, r). Inr l))
                   (initial_params s)
     in case apply_gradients E (optimizer s) grads (initial_params s) of (params', opt') \<Rightarrow>
     let d_loss' = d_loss s @ [(d_loss_real + d_loss_fake) / 2];
         g_loss' = g_loss s @ [loss]
     in Inr (s\<lparr>d_model := d2, optimizer := opt', initial_params := params', circuit := circuit2,
                d_loss := d_loss', g_loss := g_loss', rng := rng3,
                files := (files s)(params_file E self \<mapsto> NumericText params',
                                   dloss_file E self \<mapsto> NumericText d_loss',
                                   gloss_file E self \<mapsto> NumericText g_loss',
                                   weights_file E self \<mapsto> WeightsH5 d2)\<rparr>))))"

definition train_init ::
  "('d, 'o, 'q, 'r) env \<Rightarrow> qgan \<Rightarrow> 'd \<Rightarrow> gate list \<Rightarrow> 'r \<Rightarrow> (string \<rightharpoonup> 'd artifact) \<Rightarrow>
     ('d, 'o, 'r) train_state" where
  "train_init E self d0 circuit0 rng0 files0 =
     (let drawn = uniform E (- 0.15) 0.15 (10 * layers self * nqubits self + 2 * nqubits self) rng0
      in \<lparr>d_model = d0, optimizer = adadelta E (lr self), initial_params = fst drawn,
           circuit = circuit0, d_loss = [], g_loss = [], rng = snd drawn, files = files0\<rparr>)"

text \<open>
  \<^verbatim>\<open>train\<close>: \<^verbatim>\<open>half_samples = int(self.batch_samples / 2)\<close> is evaluated first and raises
  \<open>OverflowError\<close> when the quotient is too large for a double; then the parameters are
  drawn, the optimizer is built and the epochs run.
\<close>

definition train ::
  "('d, 'o, 'q, 'r) env \<Rightarrow> qgan \<Rightarrow> 'd \<Rightarrow> gate list \<Rightarrow> hamiltonian list \<Rightarrow> 'r \<Rightarrow>
     (string \<rightharpoonup> 'd artifact) \<Rightarrow> error + ('d, 'o, 'r) train_state" where
  "train E self d0 circuit0 hamiltonians_list rng0 files0 =
     (if 2 ^ 1024 \<le> half_samples self then Inl OverflowError
      else for_in [0..<n_epochs self] (epoch E self hamiltonians_list)
             (train_init E self d0 circuit0 rng0 files0))"

subsection \<open>\<open>execute\<close>\<close>

text \<open>The local function \<^verbatim>\<open>hamiltonian(nqubits, position)\<close>; \<open>ham\<close> is unbound (\<open>None\<close>)
  until the second loop assigns it.\<close>

definition hamiltonian :: "nat \<Rightarrow> nat \<Rightarrow> error + hamiltonian" where
  "hamiltonian nq position =
     (let kron = map (\<lambda>i. if i = position then Z_matrix else Identity) [0..<nq];
          ham = fold (\<lambda>i ham. if i = 0 then Some (Kron (kron ! (i + 1)) (kron ! i))
                               else map_option (Kron (kron ! (i + 1))) ham)
                  [0..<nq - 1] None
      in case ham of None \<Rightarrow> Inl UnboundLocalError | Some h \<Rightarrow> Inr (Hamiltonian nq h))"

definition execute ::
  "('d, 'o, 'q, 'r) env \<Rightarrow> qgan \<Rightarrow> 'r \<Rightarrow> (string \<rightharpoonup> 'd artifact) \<Rightarrow>
     error + ('d, 'o, 'r) train_state" where
  "execute E self rng0 files0 =
     (let discriminator = define_discriminator E (nqubits self)
      in and_then (collect (hamiltonian (nqubits self)) [0..<nqubits self]) (\<lambda>hamiltonians_list.
           train E self discriminator (circuit_template (layers self) (nqubits self))
             hamiltonians_list rng0 files0))"

subsection \<open>Every epoch returns on a well-formed configuration\<close>

lemma and_then_Inr_iff:
  "and_then m f = Inr v \<longleftrightarrow> (\<exists>u. m = Inr u \<and> f u = Inr v)"
  by (cases m) (simp_all add: and_then_def)

lemma and_then_Inr [simp]: "and_then (Inr u) f = f u"
  by (simp add: and_then_def)

lemma and_then_Inl [simp]: "and_then (Inl e) f = Inl e"
  by (simp add: and_then_def)

lemma length_reshape:
  assumes "reshape rows cols xs = Inr m"
  shows "length m = rows \<and> (\<forall>row\<in>set m. length row = cols)"
proof -
  have len: "length xs = rows * cols" and m: "m = map (\<lambda>r. take cols (drop (r * cols) xs)) [0..<rows]"
    using assms by (auto simp: reshape_def split: if_splits)
  have "length (take cols (drop (r * cols) xs)) = cols" if "r < rows" for r
  proof -
    have "Suc r * cols \<le> rows * cols"
      using that by (intro mult_le_mono1) simp
    then show ?thesis using len by simp
  qed
  then show ?thesis using m by auto
qed

lemma reshape_returns: "length xs = rows * cols \<Longrightarrow> \<exists>m. reshape rows cols xs = Inr m"
  by (simp add: reshape_def)

lemma np_transpose_shape:
  "length (np_transpose ncols m) = ncols \<and> (\<forall>row\<in>set (np_transpose ncols m). length row = length m)"
  by (auto simp: np_transpose_def)

lemma angle_slots_set_parameters:
  assumes "set_parameters p c = Inr c'"
  shows "angle_slots c' = angle_slots c"
  using assms by (auto simp: set_parameters_def angle_slots_length split: if_splits)

definition fake_inv :: "nat \<Rightarrow> nat \<Rightarrow> fake_state \<Rightarrow> bool" where
  "fake_inv nq slots s \<longleftrightarrow> length (fk_X s) = nq \<and> angle_slots (fk_circuit s) = slots"

lemma triple_append_expectation:
  assumes "ii < nq" and "nq \<le> length hams"
  shows "triple (fake_inv nq slots) (append_expectation E hams q ii) (fake_inv nq slots) (\<lambda>e. False)"
  using assms by (intro tripleI) (simp add: append_expectation_def fake_inv_def)

lemma triple_fake_sample:
  assumes n: "1 \<le> nqubits self" and d: "0 < latent_dim self"
    and p: "length params = 10 * layers self * nqubits self + 2 * nqubits self"
    and len: "length x = latent_dim self"
    and w: "\<forall>r\<in>set x. i < length r \<and> nqubits self - 1 \<le> length r"
    and h: "nqubits self \<le> length hams"
  shows "triple (fake_inv (nqubits self) (5 * layers self * nqubits self + nqubits self))
           (fake_sample E self params x hams i)
           (fake_inv (nqubits self) (5 * layers self * nqubits self + nqubits self)) (\<lambda>e. False)"
proof (rule tripleI)
  let ?slots = "5 * layers self * nqubits self + nqubits self"
  fix s assume s: "fake_inv (nqubits self) ?slots s"
  from set_params_returns[OF n d p len w]
  obtain st where st: "set_params (layers self) (nqubits self) (latent_dim self) params x i = Inr st"
    and inv: "sp_inv (latent_dim self) (nqubits self) i ?slots (length params)
                (run_kinds (layers self) (nqubits self)) st"
    by blast
  have "length (sp_p st) = angle_slots (fk_circuit s)"
    using inv s by (simp add: sp_inv_def fake_inv_def)
  then have sp: "set_parameters (sp_p st) (fk_circuit s) = Inr (map2 set_angle (fk_circuit s) (sp_p st))"
    by (simp add: set_parameters_def)
  let ?c = "map2 set_angle (fk_circuit s) (sp_p st)"
  have c: "fake_inv (nqubits self) ?slots (s\<lparr>fk_circuit := ?c\<rparr>)"
    using s angle_slots_set_parameters[OF sp] by (simp add: fake_inv_def)
  have "triple (fake_inv (nqubits self) ?slots)
          (for_in [0..<nqubits self] (append_expectation E hams (circuit_execute E ?c)))
          (fake_inv (nqubits self) ?slots) (\<lambda>e. False)"
    by (rule triple_for_in[where I = "\<lambda>k. fake_inv (nqubits self) ?slots"])
       (rule triple_append_expectation[OF _ h])
  from tripleD[OF this c]
  show "case fake_sample E self params x hams i s of Inl e \<Rightarrow> False
        | Inr s' \<Rightarrow> fake_inv (nqubits self) ?slots s'"
    by (simp add: fake_sample_def st sp)
qed

text \<open>The numpy part of the contract of the collaborators.\<close>

definition numpy_ok :: "('d, 'o, 'q, 'r) env \<Rightarrow> bool" where
  "numpy_ok E \<longleftrightarrow>
     (\<forall>k r. length (fst (randn E k r)) = k) \<and>
     (\<forall>h k r. 0 < h \<or> k = 0 \<longrightarrow>
        length (fst (randint E h k r)) = k \<and> (\<forall>j\<in>set (fst (randint E h k r)). j < h)) \<and>
     (\<forall>lo hi k r. length (fst (uniform E lo hi k r)) = k \<and>
                   (lo \<le> hi \<longrightarrow> (\<forall>v\<in>set (fst (uniform E lo hi k r)). lo \<le> v \<and> v \<le> hi)))"

lemma generate_fake_samples_returns:
  assumes ok: "numpy_ok E"
    and n: "1 \<le> nqubits self" and d: "0 < latent_dim self"
    and p: "length params = 10 * layers self * nqubits self + 2 * nqubits self"
    and c: "angle_slots circ = 5 * layers self * nqubits self + nqubits self"
    and h: "nqubits self \<le> length hams"
    and w: "samples = 0 \<or> nqubits self - 1 \<le> samples"
  shows "\<exists>X circ'. generate_fake_samples E self params samples circ hams r =
           Inr ((X, np_zeros samples), circ', snd (randn E (latent_dim self * samples) r)) \<and>
           length X = samples \<and>
           angle_slots circ' = 5 * layers self * nqubits self + nqubits self"
proof -
  let ?slots = "5 * layers self * nqubits self + nqubits self"
  obtain xs r' where rn: "randn E (latent_dim self * samples) r = (xs, r')"
    by (cases "randn E (latent_dim self * samples) r")
  have "length xs = latent_dim self * samples"
    using ok rn by (metis fst_conv numpy_ok_def)
  then have "length xs = samples * latent_dim self" by (simp add: ac_simps)
  then obtain m where m: "reshape samples (latent_dim self) xs = Inr m"
    using reshape_returns by blast
  have glp: "generate_latent_points E self samples r = Inr (m, r')"
    by (simp add: generate_latent_points_def rn m)
  let ?x = "np_transpose (latent_dim self) m"
  have lm: "length m = samples"
    using length_reshape[OF m] by simp
  have len: "length ?x = latent_dim self" and rows: "\<forall>row\<in>set ?x. length row = samples"
    using np_transpose_shape[of "latent_dim self" m] lm by simp_all
  have step: "triple (fake_inv (nqubits self) ?slots) (fake_sample E self params ?x hams i)
                (fake_inv (nqubits self) ?slots) (\<lambda>e. False)" if "i < samples" for i
  proof -
    have "\<forall>r\<in>set ?x. i < length r \<and> nqubits self - 1 \<le> length r"
      using rows w that by auto
    from triple_fake_sample[OF n d p len this h] show ?thesis .
  qed
  have loop: "triple (fake_inv (nqubits self) ?slots)
                (for_in [0..<samples] (fake_sample E self params ?x hams))
                (fake_inv (nqubits self) ?slots) (\<lambda>e. False)"
    by (rule triple_for_in[where I = "\<lambda>k. fake_inv (nqubits self) ?slots"]) (rule step)
  have "fake_inv (nqubits self) ?slots \<lparr>fk_X = replicate (nqubits self) [], fk_circuit = circ\<rparr>"
    using c by (simp add: fake_inv_def)
  from triple_returns[OF loop this]
  obtain s where s: "for_in [0..<samples] (fake_sample E self params ?x hams)
                       \<lparr>fk_X = replicate (nqubits self) [], fk_circuit = circ\<rparr> = Inr s"
    and inv: "fake_inv (nqubits self) ?slots s"
    by blast
  have "fk_X s \<noteq> []"
    using inv n by (auto simp: fake_inv_def)
  then have st: "tf_stack_axis1 samples (fk_X s) = Inr (map (\<lambda>k. map (\<lambda>col. col ! k) (fk_X s)) [0..<samples])"
    by (simp add: tf_stack_axis1_def)
  have "generate_fake_samples E self params samples circ hams r =
          Inr ((map (\<lambda>k. map (\<lambda>col. col ! k) (fk_X s)) [0..<samples], np_zeros samples), fk_circuit s, r')"
    by (simp add: generate_fake_samples_def glp s st)
  then show ?thesis
    using inv rn by (simp add: fake_inv_def)
qed

lemma collect_Inr:
  assumes "collect f ks = Inr vs"
  shows "length vs = length ks \<and> (\<forall>k<length ks. f (ks ! k) = Inr (vs ! k))"
  using assms
proof (induction ks arbitrary: vs)
  case Nil
  then show ?case by simp
next
  case (Cons k ks)
  from Cons.prems obtain v ws where v: "f k = Inr v" and ws: "collect f ks = Inr ws"
    and vs: "vs = v # ws"
    by (auto simp: and_then_Inr_iff)
  from Cons.IH[OF ws] v vs show ?case
    by (auto simp: nth_Cons split: nat.splits)
qed

lemma collect_returns:
  assumes "\<forall>k\<in>set ks. \<exists>v. f k = Inr v"
  shows "\<exists>vs. collect f ks = Inr vs"
  using assms by (induction ks) auto

lemma generate_fake_samples_Inr:
  assumes "generate_fake_samples E self params samples circ hams r = Inr ((X, y), circ', r')"
  shows "y = np_zeros samples \<and> length X = samples"
  using assms
  by (auto simp: generate_fake_samples_def and_then_Inr_iff tf_stack_axis1_def split: if_splits)

lemma bit_length_le: "bit_length n \<le> k \<longleftrightarrow> n < 2 ^ k"
proof (induction n arbitrary: k rule: bit_length.induct)
  case (1 n)
  show ?case
  proof (cases "n = 0")
    case True
    then show ?thesis by (simp add: bit_length.simps)
  next
    case False
    then have b: "bit_length n = Suc (bit_length (n div 2))"
      by (subst bit_length.simps) simp
    show ?thesis
    proof (cases k)
      case 0
      with False b show ?thesis by simp
    next
      case (Suc k')
      have "bit_length (n div 2) \<le> k' \<longleftrightarrow> n div 2 < 2 ^ k'"
        by (rule 1[OF False])
      also have "\<dots> \<longleftrightarrow> n < 2 ^ Suc k'"
        by auto
      finally show ?thesis
        using b Suc by simp
    qed
  qed
qed

lemma int_true_div2_small: "n < 2 ^ 53 \<Longrightarrow> int_true_div2 n = n div 2"
  by (simp add: int_true_div2_def bit_length_le)

lemma half_samples_small: "batch_samples self < 2 ^ 53 \<Longrightarrow> half_samples self = batch_samples self div 2"
  by (simp add: half_samples_def int_true_div2_small)

lemma generate_real_samples_Inr:
  assumes "generate_real_samples E samples distribution real_samples r = Inr ((X, y), r')"
  shows "y = np_ones samples \<and> (0 < real_samples \<or> samples = 0) \<and>
         (\<exists>idx. randint E real_samples samples r = (idx, r') \<and> length X = length idx \<and>
                (\<forall>k<length idx. nd_row distribution (idx ! k) = Inr (X ! k)))"
  using assms collect_Inr[of "nd_row distribution" _ X]
  by (auto simp: generate_real_samples_def and_then_Inr_iff split: if_splits prod.splits)

lemma generate_real_samples_returns:
  assumes ok: "numpy_ok E" and pos: "0 < real_samples \<or> samples = 0"
    and rows: "real_samples \<le> hd (nd_shape distribution)"
  shows "\<exists>X. generate_real_samples E samples distribution real_samples r =
           Inr ((X, np_ones samples), snd (randint E real_samples samples r))"
proof -
  obtain idx r' where ri: "randint E real_samples samples r = (idx, r')"
    by (cases "randint E real_samples samples r")
  have "\<forall>j\<in>set idx. j < real_samples"
    using ok pos ri by (metis fst_conv numpy_ok_def)
  then have "\<forall>j\<in>set idx. \<exists>v. nd_row distribution j = Inr v"
    using rows by (auto simp: nd_row_def)
  then obtain X where "collect (nd_row distribution) idx = Inr X"
    using collect_returns by blast
  then show ?thesis
    using pos ri by (simp add: generate_real_samples_def)
qed

lemma define_cost_gan_Inr:
  assumes "define_cost_gan E self params disc samples circ hams r = Inr (loss, circ', r')"
  shows "\<exists>x_fake. generate_fake_samples E self params samples circ hams r =
           Inr ((x_fake, np_zeros samples), circ', r') \<and> length x_fake = samples \<and>
           loss = reduce_mean E (binary_crossentropy E (np_ones samples) (discriminator_call E disc x_fake))"
proof -
  from assms obtain x_fake y where
    g: "generate_fake_samples E self params samples circ hams r = Inr ((x_fake, y), circ', r')"
    and l: "loss = reduce_mean E (binary_crossentropy E (np_ones samples) (discriminator_call E disc x_fake))"
    by (auto simp: define_cost_gan_def and_then_Inr_iff Let_def)
  from generate_fake_samples_Inr[OF g] g l show ?thesis by auto
qed

lemma epoch_Inr:
  assumes "epoch E self hams i s = Inr s'"
  obtains x_real rng1 x_fake circuit1 rng2 l_real a_real d1 l_fake a_fake loss where
    "generate_real_samples E (half_samples self) (reference self) (training_samples self) (rng s) =
       Inr ((x_real, np_ones (half_samples self)), rng1)"
    and "generate_fake_samples E self (initial_params s) (half_samples self) (circuit s) hams rng1 =
       Inr ((x_fake, np_zeros (half_samples self)), circuit1, rng2)"
    and "train_on_batch E (d_model s) x_real (np_ones (half_samples self)) = ((l_real, a_real), d1)"
    and "train_on_batch E d1 x_fake (np_zeros (half_samples self)) = ((l_fake, a_fake), d_model s')"
    and "define_cost_gan E self (initial_params s) (d_model s') (batch_samples self) circuit1 hams rng2 =
       Inr (loss, circuit s', rng s')"
    and "apply_gradients E (optimizer s)
       (tape_gradient E
          (\<lambda>ps. and_then (define_cost_gan E self ps (d_model s') (batch_samples self) circuit1 hams rng2)
                   (\<lambda>(l, c, r). Inr l))
          (initial_params s))
       (initial_params s) = (initial_params s', optimizer s')"
    and "d_loss s' = d_loss s @ [(l_real + l_fake) / 2]"
    and "g_loss s' = g_loss s @ [loss]"
    and "files s' = (files s)(params_file E self \<mapsto> NumericText (initial_params s'),
                               dloss_file E self \<mapsto> NumericText (d_loss s'),
                               gloss_file E self \<mapsto> NumericText (g_loss s'),
                               weights_file E self \<mapsto> WeightsH5 (d_model s'))"
proof -
  from assms obtain x_real y_real rng1 where
    r: "generate_real_samples E (half_samples self) (reference self) (training_samples self) (rng s) =
          Inr ((x_real, y_real), rng1)"
    unfolding epoch_def by (auto simp: and_then_Inr_iff)
  from assms r obtain x_fake y_fake circuit1 rng2 where
    f: "generate_fake_samples E self (initial_params s) (half_samples self) (circuit s) hams rng1 =
          Inr ((x_fake, y_fake), circuit1, rng2)"
    unfolding epoch_def by (auto simp: and_then_Inr_iff)
  have yr: "y_real = np_ones (half_samples self)"
    using generate_real_samples_Inr[OF r] by simp
  have yf: "y_fake = np_zeros (half_samples self)"
    using generate_fake_samples_Inr[OF f] by simp
  obtain l_real a_real d1 where t1: "train_on_batch E (d_model s) x_real y_real = ((l_real, a_real), d1)"
    by (metis prod.exhaust)
  obtain l_fake a_fake d2 where t2: "train_on_batch E d1 x_fake y_fake = ((l_fake, a_fake), d2)"
    by (metis prod.exhaust)
  from assms obtain loss circuit2 rng3 where
    c: "define_cost_gan E self (initial_params s) d2 (batch_samples self) circuit1 hams rng2 =
          Inr (loss, circuit2, rng3)"
    unfolding epoch_def by (auto simp: r f t1 t2 and_then_Inr_iff)
  obtain params' opt' where
    a: "apply_gradients E (optimizer s)
       (tape_gradient E
          (\<lambda>ps. and_then (define_cost_gan E self ps d2 (batch_samples self) circuit1 hams rng2)
                   (\<lambda>(l, c, r). Inr l))
          (initial_params s))
       (initial_params s) = (params', opt')"
    by (metis prod.exhaust)
  have s': "s' = s\<lparr>d_model := d2, optimizer := opt', initial_params := params', circuit := circuit2,
            d_loss := d_loss s @ [(l_real + l_fake) / 2], g_loss := g_loss s @ [loss], rng := rng3,
            files := (files s)(params_file E self \<mapsto> NumericText params',
                               dloss_file E self \<mapsto> NumericText (d_loss s @ [(l_real + l_fake) / 2]),
                               gloss_file E self \<mapsto> NumericText (g_loss s @ [loss]),
                               weights_file E self \<mapsto> WeightsH5 d2)\<rparr>"
    using assms unfolding epoch_def by (simp add: r f t1 t2 c a Let_def)
  have sel: "d_model s' = d2" "optimizer s' = opt'" "initial_params s' = params'"
    "circuit s' = circuit2" "rng s' = rng3"
    "d_loss s' = d_loss s @ [(l_real + l_fake) / 2]" "g_loss s' = g_loss s @ [loss]"
    "files s' = (files s)(params_file E self \<mapsto> NumericText params',
                               dloss_file E self \<mapsto> NumericText (d_loss s @ [(l_real + l_fake) / 2]),
                               gloss_file E self \<mapsto> NumericText (g_loss s @ [loss]),
                               weights_file E self \<mapsto> WeightsH5 d2)"
    unfolding s' by simp_all
  show thesis
  proof (rule that)
    show "generate_real_samples E (half_samples self) (reference self) (training_samples self) (rng s) =
       Inr ((x_real, np_ones (half_samples self)), rng1)"
      using r yr by simp
    show "generate_fake_samples E self (initial_params s) (half_samples self) (circuit s) hams rng1 =
       Inr ((x_fake, np_zeros (half_samples self)), circuit1, rng2)"
      using f yf by simp
    show "train_on_batch E (d_model s) x_real (np_ones (half_samples self)) = ((l_real, a_real), d1)"
      using t1 yr by simp
    show "train_on_batch E d1 x_fake (np_zeros (half_samples self)) = ((l_fake, a_fake), d_model s')"
      using t2 yf sel(1) by simp
    show "define_cost_gan E self (initial_params s) (d_model s') (batch_samples self) circuit1 hams rng2 =
       Inr (loss, circuit s', rng s')"
      using c sel(1,4,5) by simp
    show "apply_gradients E (optimizer s)
       (tape_gradient E
          (\<lambda>ps. and_then (define_cost_gan E self ps (d_model s') (batch_samples self) circuit1 hams rng2)
                   (\<lambda>(l, c, r). Inr l))
          (initial_params s))
       (initial_params s) = (initial_params s', optimizer s')"
      using a sel(1,2,3) by simp
    show "d_loss s' = d_loss s @ [(l_real + l_fake) / 2]"
      by (rule sel(6))
    show "g_loss s' = g_loss s @ [loss]"
      by (rule sel(7))
    show "files s' = (files s)(params_file E self \<mapsto> NumericText (initial_params s'),
                               dloss_file E self \<mapsto> NumericText (d_loss s'),
                               gloss_file E self \<mapsto> NumericText (g_loss s'),
                               weights_file E self \<mapsto> WeightsH5 (d_model s'))"
      unfolding sel by (rule refl)
  qed
qed

text \<open>TensorFlow keeps the shape of a variable that the optimizer updates.\<close>

definition tf_ok :: "('d, 'o, 'q, 'r) env \<Rightarrow> bool" where
  "tf_ok E \<longleftrightarrow> (\<forall>opt g ps. length (fst (apply_gradients E opt g ps)) = length ps)"

definition train_inv :: "qgan \<Rightarrow> ('d, 'o, 'r) train_state \<Rightarrow> bool" where
  "train_inv self s \<longleftrightarrow>
     length (initial_params s) = 10 * layers self * nqubits self + 2 * nqubits self \<and>
     angle_slots (circuit s) = 5 * layers self * nqubits self + nqubits self"

text \<open>
  The configurations on which every lookup of an epoch is in range: at least one qubit and
  one latent dimension, one observable per qubit, a reference with rows unless no real
  sample is drawn, half a batch that fits a double, and batches that are empty or hold the
  columns \<open>0 .. nqubits-2\<close> that \<open>set_params\<close> reads.
\<close>

definition trainable :: "qgan \<Rightarrow> hamiltonian list \<Rightarrow> bool" where
  "trainable self hams \<longleftrightarrow>
     1 \<le> nqubits self \<and> 0 < latent_dim self \<and> nqubits self \<le> length hams \<and>
     (0 < training_samples self \<or> half_samples self = 0) \<and>
     training_samples self \<le> hd (nd_shape (reference self)) \<and> half_samples self < 2 ^ 1024 \<and>
     (half_samples self = 0 \<or> nqubits self - 1 \<le> half_samples self) \<and>
     (batch_samples self = 0 \<or> nqubits self - 1 \<le> batch_samples self)"

lemma epoch_returns:
  assumes ok: "numpy_ok E" and tf: "tf_ok E" and cfg: "trainable self hams" and inv: "train_inv self s"
  shows "\<exists>s'. epoch E self hams i s = Inr s' \<and> train_inv self s'"
proof -
  let ?slots = "5 * layers self * nqubits self + nqubits self"
  have n: "1 \<le> nqubits self" and d: "0 < latent_dim self" and h: "nqubits self \<le> length hams"
    and ts: "0 < training_samples self \<or> half_samples self = 0"
      "training_samples self \<le> hd (nd_shape (reference self))"
    and wh: "half_samples self = 0 \<or> nqubits self - 1 \<le> half_samples self"
    and wb: "batch_samples self = 0 \<or> nqubits self - 1 \<le> batch_samples self"
    using cfg by (simp_all add: trainable_def)
  have p: "length (initial_params s) = 10 * layers self * nqubits self + 2 * nqubits self"
    and c: "angle_slots (circuit s) = ?slots"
    using inv by (simp_all add: train_inv_def)
  from generate_real_samples_returns[OF ok ts]
  obtain x_real rng1 where
    r: "generate_real_samples E (half_samples self) (reference self) (training_samples self) (rng s) =
          Inr ((x_real, np_ones (half_samples self)), rng1)"
    by blast
  from generate_fake_samples_returns[OF ok n d p c h wh]
  obtain x_fake circuit1 rng2 where
    f: "generate_fake_samples E self (initial_params s) (half_samples self) (circuit s) hams rng1 =
          Inr ((x_fake, np_zeros (half_samples self)), circuit1, rng2)"
    and c1: "angle_slots circuit1 = ?slots"
    by blast
  obtain l_real a_real d1 where
    t1: "train_on_batch E (d_model s) x_real (np_ones (half_samples self)) = ((l_real, a_real), d1)"
    by (metis prod.exhaust)
  obtain l_fake a_fake d2 where
    t2: "train_on_batch E d1 x_fake (np_zeros (half_samples self)) = ((l_fake, a_fake), d2)"
    by (metis prod.exhaust)
  from generate_fake_samples_returns[OF ok n d p c1 h wb]
  obtain x_gen circuit2 rng3 where
    g: "generate_fake_samples E self (initial_params s) (batch_samples self) circuit1 hams rng2 =
          Inr ((x_gen, np_zeros (batch_samples self)), circuit2, rng3)"
    and c2: "angle_slots circuit2 = ?slots"
    by blast
  obtain params' opt' where
    a: "apply_gradients E (optimizer s)
       (tape_gradient E
          (\<lambda>ps. and_then (define_cost_gan E self ps d2 (batch_samples self) circuit1 hams rng2)
                   (\<lambda>(l, c, r). Inr l))
          (initial_params s))
       (initial_params s) = (params', opt')"
    by (metis prod.exhaust)
  have p': "length params' = length (initial_params s)"
    using tf a by (metis fst_conv tf_ok_def)
  have cost: "define_cost_gan E self (initial_params s) d2 (batch_samples self) circuit1 hams rng2 =
          Inr (reduce_mean E (binary_crossentropy E (np_ones (batch_samples self))
                 (discriminator_call E d2 x_gen)), circuit2, rng3)"
    by (simp add: define_cost_gan_def g Let_def)
  have "\<exists>s'. epoch E self hams i s = Inr s' \<and> initial_params s' = params' \<and> circuit s' = circuit2"
    unfolding epoch_def by (simp add: r f t1 t2 cost a Let_def)
  then show ?thesis
    using p p' c2 by (auto simp: train_inv_def)
qed

lemma train_init_inv:
  assumes "numpy_ok E" and "angle_slots c0 = 5 * layers self * nqubits self + nqubits self"
  shows "train_inv self (train_init E self d0 c0 rng0 files0)"
proof -
  have "length (fst (uniform E (- 0.15) 0.15 (10 * layers self * nqubits self + 2 * nqubits self) rng0))
      = 10 * layers self * nqubits self + 2 * nqubits self"
    using assms(1) by (simp add: numpy_ok_def)
  then show ?thesis
    using assms(2) by (simp add: train_inv_def train_init_def Let_def)
qed

lemma epochs_return:
  assumes ok: "numpy_ok E" and tf: "tf_ok E" and cfg: "trainable self hams" and inv: "train_inv self s"
  shows "\<exists>s'. for_in [0..<k] (epoch E self hams) s = Inr s' \<and> train_inv self s'"
proof -
  have "triple (train_inv self) (epoch E self hams i) (train_inv self) (\<lambda>e. False)" for i
  proof (rule tripleI)
    fix s :: "('a, 'b, 'd) train_state" assume "train_inv self s"
    from epoch_returns[OF ok tf cfg this, of i]
    show "case epoch E self hams i s of Inl e \<Rightarrow> False | Inr s' \<Rightarrow> train_inv self s'"
      by auto
  qed
  then have "triple (train_inv self) (for_in [0..<k] (epoch E self hams)) (train_inv self) (\<lambda>e. False)"
    by (intro triple_for_in[where I = "\<lambda>k. train_inv self"])
  from triple_returns[OF this inv] show ?thesis .
qed

lemma train_returns:
  assumes "numpy_ok E" and "tf_ok E" and "trainable self hams"
    and "angle_slots c0 = 5 * layers self * nqubits self + nqubits self"
  shows "\<exists>s'. train E self d0 c0 hams rng0 files0 = Inr s'"
proof -
  have fits: "\<not> 2 ^ 1024 \<le> half_samples self"
    using assms(3) by (simp add: trainable_def)
  from epochs_return[OF assms(1-3) train_init_inv[OF assms(1,4), of d0 rng0 files0], of "n_epochs self"]
  obtain s' where "for_in [0..<n_epochs self] (epoch E self hams)
                     (train_init E self d0 c0 rng0 files0) = Inr s'"
    by blast
  with fits show ?thesis
    by (simp only: train_def if_False) blast
qed

lemma for_in_prefix:
  assumes "for_in [0..<n] body s = Inr s'" and "k < n"
  shows "\<exists>sk sk'. for_in [0..<k] body s = Inr sk \<and> body k sk = Inr sk' \<and>
           for_in [0..<Suc k] body s = Inr sk'"
proof -
  have "[0..<n] = [0..<Suc k] @ [Suc k..<n]"
    using assms(2) upt_add_eq_append[of 0 "Suc k" "n - Suc k"] by simp
  then have "for_in [0..<n] body s =
      (case block (map body [0..<Suc k]) s of Inl e \<Rightarrow> Inl e | Inr t \<Rightarrow> block (map body [Suc k..<n]) t)"
    by (simp only: for_in_def map_append block_append)
  with assms(1) obtain sk' where sk': "for_in [0..<Suc k] body s = Inr sk'"
    by (auto simp: for_in_def split: sum.splits)
  then obtain sk where "for_in [0..<k] body s = Inr sk" and "body k sk = Inr sk'"
    by (auto simp: for_in_def block_append split: sum.splits)
  with sk' show ?thesis by blast
qed

lemma hamiltonian_returns:
  assumes "2 \<le> nq"
  shows "\<exists>h. hamiltonian nq position = Inr h"
proof -
  let ?kron = "map (\<lambda>i. if i = position then Z_matrix else Identity) [0..<nq]"
  let ?f = "\<lambda>i ham. if i = 0 then Some (Kron (?kron ! (i + 1)) (?kron ! i))
                      else map_option (Kron (?kron ! (i + 1))) ham"
  have "fold ?f [0..<Suc m] None \<noteq> None" for m
    by (induction m) auto
  from this[of "nq - 2"] have "fold ?f [0..<nq - 1] None \<noteq> None"
    using assms by (simp add: Suc_diff_Suc numeral_2_eq_2)
  then show ?thesis
    by (auto simp: hamiltonian_def Let_def)
qed

lemma execute_unfold:
  "execute E self rng0 files0 =
     and_then (collect (hamiltonian (nqubits self)) [0..<nqubits self]) (\<lambda>hams.
       if 2 ^ 1024 \<le> half_samples self then Inl OverflowError
       else for_in [0..<n_epochs self] (epoch E self hams)
              (train_init E self (define_discriminator E (nqubits self))
                 (circuit_template (layers self) (nqubits self)) rng0 files0))"
  by (simp add: execute_def train_def Let_def)

subsection \<open>A small configuration\<close>

text \<open>
  Collaborators that satisfy the contracts, a reference of three samples with two features,
  and the model object the constructor builds from it (one layer, one latent dimension,
  batches of four, two epochs).
\<close>

definition demo_env :: "(unit, unit, unit, unit) env" where
  "demo_env = \<lparr>randn = (\<lambda>k r. (replicate k (1 / 2), r)), randint = (\<lambda>h k r. (replicate k 0, r)),
     uniform = (\<lambda>lo hi k r. (replicate k lo, r)),
     circuit_execute = (\<lambda>c. ()), expectation = (\<lambda>h q. 1 / 4),
     define_discriminator = (\<lambda>k. ()),
     train_on_batch = (\<lambda>d X y. ((real (length X), 0), d)),
     discriminator_call = (\<lambda>d X. X), binary_crossentropy = (\<lambda>y p. map hd y),
     reduce_mean = (\<lambda>xs. sum_list xs / real (length xs)),
     adadelta = (\<lambda>r. ()), tape_gradient = (\<lambda>f ps. ps),
     apply_gradients = (\<lambda>opt g ps. (ps, opt)), str_float = (\<lambda>r. ''0.5'')\<rparr>"

definition demo_reference :: ndarray where
  "demo_reference = \<lparr>nd_shape = [3, 2], nd_data = [1, 2, 3, 4, 5, 6]\<rparr>"

definition demo_model :: qgan where
  "demo_model = \<lparr>reference = demo_reference, nqubits = 2, layers = 1, latent_dim = 1,
     training_samples = 3, batch_samples = 4, n_epochs = 2, lr = 1 / 2\<rparr>"

definition demo_hams :: "hamiltonian list" where
  "demo_hams = [Hamiltonian 2 (Kron Identity Z_matrix), Hamiltonian 2 (Kron Z_matrix Identity)]"

definition demo_start :: "(unit, unit, unit) train_state" where
  "demo_start = train_init demo_env demo_model () (circuit_template 1 2) () Map.empty"


lemma demo_init: "qGAN_init demo_reference 1 1 4 2 (1 / 2) = Inr demo_model"
  by (simp add: qGAN_init_def shape_at_def demo_reference_def demo_model_def)

lemma demo_hams_built: "collect (hamiltonian 2) [0..<2] = Inr demo_hams"
  by (simp add: hamiltonian_def demo_hams_def upt_conv_Cons)

lemma demo_numpy_ok: "numpy_ok demo_env"
  by (simp add: numpy_ok_def demo_env_def)

lemma demo_tf_ok: "tf_ok demo_env"
  by (simp add: tf_ok_def demo_env_def)

lemma demo_trainable: "trainable demo_model demo_hams"
  by (simp add: trainable_def demo_model_def demo_hams_def demo_reference_def half_samples_small)

lemma demo_template: "angle_slots (circuit_template 1 2) = 5 * layers demo_model * nqubits demo_model + nqubits demo_model"
  using length_circuit_template[of 2 1] by (simp add: angle_slots_length demo_model_def)

lemma demo_start_inv: "train_inv demo_model demo_start"
  unfolding demo_start_def by (rule train_init_inv[OF demo_numpy_ok demo_template])

lemma demo_epoch: "\<exists>s'. epoch demo_env demo_model demo_hams 0 demo_start = Inr s'"
  using epoch_returns[OF demo_numpy_ok demo_tf_ok demo_trainable demo_start_inv] by blast

lemma demo_train:
  "\<exists>s'. train demo_env demo_model () (circuit_template 1 2) demo_hams () Map.empty = Inr s'"
  by (rule train_returns[OF demo_numpy_ok demo_tf_ok demo_trainable demo_template])

subsection \<open>The claims about an epoch\<close>

text \<open>
  C5. In every epoch that returns, \<open>define_cost_gan\<close> is called with \<open>batch_samples\<close>
  samples (not \<open>half_samples\<close>): it generates a second fake batch, after the one for the
  discriminator, of \<open>batch_samples\<close> rows, which \<open>generate_fake_samples\<close> labels with zeros;
  the loss appended to \<open>g_loss\<close> is the mean of the binary cross-entropy whose label
  argument is \<open>np_ones (batch_samples self)\<close>, that is \<open>batch_samples\<close> rows \<open>[1]\<close>, and whose
  prediction is the discriminator called on that batch. This holds for every loss function,
  mean and discriminator.
\<close>

theorem generator_loss_labels_all_ones:
  assumes "epoch E self hams i s = Inr s'"
  shows "\<exists>x_half circuit1 rng1 rng2 x_fake circuit2 rng3.
     generate_fake_samples E self (initial_params s) (half_samples self) (circuit s) hams rng1 =
       Inr ((x_half, np_zeros (half_samples self)), circuit1, rng2) \<and>
     generate_fake_samples E self (initial_params s) (batch_samples self) circuit1 hams rng2 =
       Inr ((x_fake, np_zeros (batch_samples self)), circuit2, rng3) \<and>
     length x_fake = batch_samples self \<and>
     define_cost_gan E self (initial_params s) (d_model s') (batch_samples self) circuit1 hams rng2 =
       Inr (reduce_mean E (binary_crossentropy E (np_ones (batch_samples self))
                            (discriminator_call E (d_model s') x_fake)), circuit2, rng3) \<and>
     g_loss s' = g_loss s @ [reduce_mean E (binary_crossentropy E (np_ones (batch_samples self))
                                            (discriminator_call E (d_model s') x_fake))] \<and>
     np_ones (batch_samples self) = replicate (batch_samples self) [1] \<and>
     np_zeros (batch_samples self) = replicate (batch_samples self) [0]"
proof -
  from assms obtain x_real rng1 x_fake circuit1 rng2 l_real a_real d1 l_fake a_fake loss where
    f: "generate_fake_samples E self (initial_params s) (half_samples self) (circuit s) hams rng1 =
          Inr ((x_fake, np_zeros (half_samples self)), circuit1, rng2)"
    and c: "define_cost_gan E self (initial_params s) (d_model s') (batch_samples self) circuit1 hams rng2 =
          Inr (loss, circuit s', rng s')"
    and g: "g_loss s' = g_loss s @ [loss]"
    by (rule epoch_Inr)
  from define_cost_gan_Inr[OF c]
  obtain x_gen where
    g2: "generate_fake_samples E self (initial_params s) (batch_samples self) circuit1 hams rng2 =
       Inr ((x_gen, np_zeros (batch_samples self)), circuit s', rng s')"
    and len: "length x_gen = batch_samples self"
    and loss: "loss = reduce_mean E (binary_crossentropy E (np_ones (batch_samples self))
                  (discriminator_call E (d_model s') x_gen))"
    by blast
  show ?thesis
  proof (intro exI conjI)
    show "generate_fake_samples E self (initial_params s) (half_samples self) (circuit s) hams rng1 =
       Inr ((x_fake, np_zeros (half_samples self)), circuit1, rng2)"
      by (rule f)
    show "generate_fake_samples E self (initial_params s) (batch_samples self) circuit1 hams rng2 =
       Inr ((x_gen, np_zeros (batch_samples self)), circuit s', rng s')"
      by (rule g2)
    show "length x_gen = batch_samples self"
      by (rule len)
    show "define_cost_gan E self (initial_params s) (d_model s') (batch_samples self) circuit1 hams rng2 =
       Inr (reduce_mean E (binary_crossentropy E (np_ones (batch_samples self))
                            (discriminator_call E (d_model s') x_gen)), circuit s', rng s')"
      using c loss by simp
    show "g_loss s' = g_loss s @ [reduce_mean E (binary_crossentropy E (np_ones (batch_samples self))
                                            (discriminator_call E (d_model s') x_gen))]"
      using g loss by simp
    show "np_ones (batch_samples self) = replicate (batch_samples self) [1]"
      by (simp add: np_ones_def)
    show "np_zeros (batch_samples self) = replicate (batch_samples self) [0]"
      by (simp add: np_zeros_def)
  qed
qed

text \<open>The first epoch of the small configuration returns, and the theorem applies to it.\<close>

theorem generator_loss_labels_all_ones_witness:
  "\<exists>s'. epoch demo_env demo_model demo_hams 0 demo_start = Inr s' \<and>
    (\<exists>x_half circuit1 rng1 rng2 x_fake circuit2 rng3.
     generate_fake_samples demo_env demo_model (initial_params demo_start) (half_samples demo_model)
       (circuit demo_start) demo_hams rng1 =
       Inr ((x_half, np_zeros (half_samples demo_model)), circuit1, rng2) \<and>
     generate_fake_samples demo_env demo_model (initial_params demo_start) (batch_samples demo_model)
       circuit1 demo_hams rng2 =
       Inr ((x_fake, np_zeros (batch_samples demo_model)), circuit2, rng3) \<and>
     length x_fake = batch_samples demo_model \<and>
     define_cost_gan demo_env demo_model (initial_params demo_start) (d_model s')
       (batch_samples demo_model) circuit1 demo_hams rng2 =
       Inr (reduce_mean demo_env (binary_crossentropy demo_env (np_ones (batch_samples demo_model))
                            (discriminator_call demo_env (d_model s') x_fake)), circuit2, rng3) \<and>
     g_loss s' = g_loss demo_start @
        [reduce_mean demo_env (binary_crossentropy demo_env (np_ones (batch_samples demo_model))
           (discriminator_call demo_env (d_model s') x_fake))] \<and>
     np_ones (batch_samples demo_model) = replicate (batch_samples demo_model) [1] \<and>
     np_zeros (batch_samples demo_model) = replicate (batch_samples demo_model) [0])"
proof -
  from demo_epoch obtain s' where s': "epoch demo_env demo_model demo_hams 0 demo_start = Inr s'" ..
  from generator_loss_labels_all_ones[OF s'] s' show ?thesis
    by (intro exI[of _ s'] conjI)
qed







subsection \<open>The claims about the whole run\<close>

lemma checkpoint_files_distinct:
  "distinct [params_file E self, dloss_file E self, gloss_file E self, weights_file E self]"
  by (simp add: params_file_def dloss_file_def gloss_file_def weights_file_def)

definition loss_count :: "nat \<Rightarrow> ('d, 'o, 'r) train_state \<Rightarrow> bool" where
  "loss_count k s \<longleftrightarrow> length (d_loss s) = k \<and> length (g_loss s) = k"

lemma loss_count_epoch:
  fixes E :: "('d, 'o, 'q, 'r) env"
  shows "triple (loss_count k) (epoch E self hams k) (loss_count (Suc k)) (\<lambda>e. True)"
proof (rule tripleI)
  fix s :: "('d, 'o, 'r) train_state" assume s: "loss_count k s"
  show "case epoch E self hams k s of Inl e \<Rightarrow> True | Inr s' \<Rightarrow> loss_count (Suc k) s'"
  proof (cases "epoch E self hams k s")
    case (Inl e)
    then show ?thesis by simp
  next
    case (Inr s')
    then obtain x_real rng1 x_fake circuit1 rng2 l_real a_real d1 l_fake a_fake loss where
      "d_loss s' = d_loss s @ [(l_real + l_fake) / 2]" and "g_loss s' = g_loss s @ [loss]"
      by (rule epoch_Inr)
    with s Inr show ?thesis by (simp add: loss_count_def)
  qed
qed

lemma loss_count_train:
  assumes "train E self d0 c0 hams rng0 files0 = Inr s_end"
  shows "length (d_loss s_end) = n_epochs self \<and> length (g_loss s_end) = n_epochs self"
proof -
  have "triple (loss_count 0) (for_in [0..<n_epochs self] (epoch E self hams))
          (loss_count (n_epochs self)) (\<lambda>e. True)"
    by (rule triple_for_in) (rule loss_count_epoch)
  moreover have "loss_count 0 (train_init E self d0 c0 rng0 files0)"
    by (simp add: train_init_def Let_def loss_count_def)
  ultimately have "case for_in [0..<n_epochs self] (epoch E self hams)
                          (train_init E self d0 c0 rng0 files0) of Inl e \<Rightarrow> True
                   | Inr s' \<Rightarrow> loss_count (n_epochs self) s'"
    by (rule tripleD)
  with assms show ?thesis by (simp add: loss_count_def train_def split: if_splits)
qed

text \<open>
  C7. When \<open>train\<close> returns, both loss histories hold \<open>n_epochs\<close> entries, and every epoch
  \<open>k < n_epochs\<close> appended one entry to each and updated the disk at exactly four pairwise
  different paths, replacing what was there: the parameter vector, the two loss histories
  (numeric text) and the discriminator weights. Each file name is a fixed prefix followed by
  \<open>nqubits\<close>, \<open>latent_dim\<close>, \<open>layers\<close>, \<open>training_samples\<close>, \<open>batch_samples\<close> and \<open>lr\<close>,
  in this order, separated by underscores (and \<open>.h5\<close> for the weights).
\<close>

theorem train_appends_losses_and_overwrites_checkpoints:
  assumes "train E self d0 c0 hams rng0 files0 = Inr s_end"
  shows "length (d_loss s_end) = n_epochs self \<and> length (g_loss s_end) = n_epochs self \<and>
    (\<forall>k<n_epochs self. \<exists>s s'.
        for_in [0..<k] (epoch E self hams) (train_init E self d0 c0 rng0 files0) = Inr s \<and>
        epoch E self hams k s = Inr s' \<and>
        for_in [0..<Suc k] (epoch E self hams) (train_init E self d0 c0 rng0 files0) = Inr s' \<and>
        (\<exists>dl gl. d_loss s' = d_loss s @ [dl] \<and> g_loss s' = g_loss s @ [gl]) \<and>
        files s' = (files s)(params_file E self \<mapsto> NumericText (initial_params s'),
                             dloss_file E self \<mapsto> NumericText (d_loss s'),
                             gloss_file E self \<mapsto> NumericText (g_loss s'),
                             weights_file E self \<mapsto> WeightsH5 (d_model s'))) \<and>
    distinct [params_file E self, dloss_file E self, gloss_file E self, weights_file E self] \<and>
    params_file E self = ''PARAMS_3Dgaussian_'' @ hyperparameters E self \<and>
    dloss_file E self = ''dloss_3Dgaussian_'' @ hyperparameters E self \<and>
    gloss_file E self = ''gloss_3Dgaussian_'' @ hyperparameters E self \<and>
    weights_file E self = ''discriminator_3Dgaussian_'' @ hyperparameters E self @ ''.h5'' \<and>
    hyperparameters E self =
      str_nat (nqubits self) @ ''_'' @ str_nat (latent_dim self) @ ''_'' @ str_nat (layers self) @ ''_'' @
      str_nat (training_samples self) @ ''_'' @ str_nat (batch_samples self) @ ''_'' @
      str_float E (lr self)"
proof -
  have counts: "length (d_loss s_end) = n_epochs self \<and> length (g_loss s_end) = n_epochs self"
    by (rule loss_count_train[OF assms])
  have run: "for_in [0..<n_epochs self] (epoch E self hams) (train_init E self d0 c0 rng0 files0) = Inr s_end"
    using assms by (simp add: train_def split: if_splits)
  have epochs: "\<forall>k<n_epochs self. \<exists>s s'.
        for_in [0..<k] (epoch E self hams) (train_init E self d0 c0 rng0 files0) = Inr s \<and>
        epoch E self hams k s = Inr s' \<and>
        for_in [0..<Suc k] (epoch E self hams) (train_init E self d0 c0 rng0 files0) = Inr s' \<and>
        (\<exists>dl gl. d_loss s' = d_loss s @ [dl] \<and> g_loss s' = g_loss s @ [gl]) \<and>
        files s' = (files s)(params_file E self \<mapsto> NumericText (initial_params s'),
                             dloss_file E self \<mapsto> NumericText (d_loss s'),
                             gloss_file E self \<mapsto> NumericText (g_loss s'),
                             weights_file E self \<mapsto> WeightsH5 (d_model s'))"
  proof (intro allI impI)
    fix k assume k: "k < n_epochs self"
    from for_in_prefix[OF run k] obtain s s' where
      p: "for_in [0..<k] (epoch E self hams) (train_init E self d0 c0 rng0 files0) = Inr s"
      and e: "epoch E self hams k s = Inr s'"
      and n: "for_in [0..<Suc k] (epoch E self hams) (train_init E self d0 c0 rng0 files0) = Inr s'"
      by blast
    from e obtain x_real rng1 x_fake circuit1 rng2 l_real a_real d1 l_fake a_fake loss where
      dl: "d_loss s' = d_loss s @ [(l_real + l_fake) / 2]" and gl: "g_loss s' = g_loss s @ [loss]"
      and f: "files s' = (files s)(params_file E self \<mapsto> NumericText (initial_params s'),
                             dloss_file E self \<mapsto> NumericText (d_loss s'),
                             gloss_file E self \<mapsto> NumericText (g_loss s'),
                             weights_file E self \<mapsto> WeightsH5 (d_model s'))"
      by (rule epoch_Inr)
    have l: "\<exists>dl gl. d_loss s' = d_loss s @ [dl] \<and> g_loss s' = g_loss s @ [gl]"
      using dl gl by blast
    show "\<exists>s s'.
        for_in [0..<k] (epoch E self hams) (train_init E self d0 c0 rng0 files0) = Inr s \<and>
        epoch E self hams k s = Inr s' \<and>
        for_in [0..<Suc k] (epoch E self hams) (train_init E self d0 c0 rng0 files0) = Inr s' \<and>
        (\<exists>dl gl. d_loss s' = d_loss s @ [dl] \<and> g_loss s' = g_loss s @ [gl]) \<and>
        files s' = (files s)(params_file E self \<mapsto> NumericText (initial_params s'),
                             dloss_file E self \<mapsto> NumericText (d_loss s'),
                             gloss_file E self \<mapsto> NumericText (g_loss s'),
                             weights_file E self \<mapsto> WeightsH5 (d_model s'))"
      by (rule exI[of _ s], rule exI[of _ s']) (simp only: p e n l f simp_thms)
  qed
  have names: "params_file E self = ''PARAMS_3Dgaussian_'' @ hyperparameters E self"
    "dloss_file E self = ''dloss_3Dgaussian_'' @ hyperparameters E self"
    "gloss_file E self = ''gloss_3Dgaussian_'' @ hyperparameters E self"
    "weights_file E self = ''discriminator_3Dgaussian_'' @ hyperparameters E self @ ''.h5''"
    by (simp_all only: params_file_def dloss_file_def gloss_file_def weights_file_def)
  have hyp: "hyperparameters E self =
      str_nat (nqubits self) @ ''_'' @ str_nat (latent_dim self) @ ''_'' @ str_nat (layers self) @ ''_'' @
      str_nat (training_samples self) @ ''_'' @ str_nat (batch_samples self) @ ''_'' @
      str_float E (lr self)"
    by (simp only: hyperparameters_def)
  from counts epochs checkpoint_files_distinct[of E self] names hyp
  show ?thesis by (intro conjI) (erule conjunct1 conjunct2 | assumption)+
qed

text \<open>The two epochs of the small configuration, and its file names.\<close>

theorem train_appends_losses_and_overwrites_checkpoints_witness:
  "\<exists>s_end. train demo_env demo_model () (circuit_template 1 2) demo_hams () Map.empty = Inr s_end \<and>
     length (d_loss s_end) = 2 \<and> length (g_loss s_end) = 2 \<and>
     (\<forall>k<2. \<exists>s s'.
        for_in [0..<k] (epoch demo_env demo_model demo_hams) demo_start = Inr s \<and>
        epoch demo_env demo_model demo_hams k s = Inr s' \<and>
        files s' = (files s)(params_file demo_env demo_model \<mapsto> NumericText (initial_params s'),
                             dloss_file demo_env demo_model \<mapsto> NumericText (d_loss s'),
                             gloss_file demo_env demo_model \<mapsto> NumericText (g_loss s'),
                             weights_file demo_env demo_model \<mapsto> WeightsH5 (d_model s'))) \<and>
     params_file demo_env demo_model = ''PARAMS_3Dgaussian_2_1_1_3_4_0.5'' \<and>
     weights_file demo_env demo_model = ''discriminator_3Dgaussian_2_1_1_3_4_0.5.h5''"
proof -
  from demo_train obtain s_end where
    t: "train demo_env demo_model () (circuit_template 1 2) demo_hams () Map.empty = Inr s_end" ..
  have n: "n_epochs demo_model = 2"
    by (simp add: demo_model_def)
  have h: "hyperparameters demo_env demo_model = ''2_1_1_3_4_0.5''"
    by (simp add: hyperparameters_def demo_model_def demo_env_def digit_def)
  note c = train_appends_losses_and_overwrites_checkpoints[OF t, unfolded n h, folded demo_start_def]
  have "length (d_loss s_end) = 2" and "length (g_loss s_end) = 2"
    and "params_file demo_env demo_model = ''PARAMS_3Dgaussian_2_1_1_3_4_0.5''"
    and "weights_file demo_env demo_model = ''discriminator_3Dgaussian_2_1_1_3_4_0.5.h5''"
    using c by simp_all
  moreover have "\<forall>k<2. \<exists>s s'.
        for_in [0..<k] (epoch demo_env demo_model demo_hams) demo_start = Inr s \<and>
        epoch demo_env demo_model demo_hams k s = Inr s' \<and>
        files s' = (files s)(params_file demo_env demo_model \<mapsto> NumericText (initial_params s'),
                             dloss_file demo_env demo_model \<mapsto> NumericText (d_loss s'),
                             gloss_file demo_env demo_model \<mapsto> NumericText (g_loss s'),
                             weights_file demo_env demo_model \<mapsto> WeightsH5 (d_model s'))"
    using c by blast
  ultimately show ?thesis
    using t by blast
qed

definition params_sized :: "qgan \<Rightarrow> ('d, 'o, 'r) train_state \<Rightarrow> bool" where
  "params_sized self s \<longleftrightarrow>
     length (initial_params s) = 10 * layers self * nqubits self + 2 * nqubits self"

lemma params_sized_epoch:
  fixes E :: "('d, 'o, 'q, 'r) env"
  assumes "tf_ok E"
  shows "triple (params_sized self) (epoch E self hams k) (params_sized self) (\<lambda>e. True)"
proof (rule tripleI)
  fix s :: "('d, 'o, 'r) train_state" assume s: "params_sized self s"
  show "case epoch E self hams k s of Inl e \<Rightarrow> True | Inr s' \<Rightarrow> params_sized self s'"
  proof (cases "epoch E self hams k s")
    case (Inl e)
    then show ?thesis by simp
  next
    case (Inr s')
    then obtain g where
      "apply_gradients E (optimizer s) g (initial_params s) = (initial_params s', optimizer s')"
      by (rule epoch_Inr)
    then have "length (initial_params s') = length (initial_params s)"
      using assms by (metis fst_conv tf_ok_def)
    with s Inr show ?thesis by (simp add: params_sized_def)
  qed
qed

lemma params_sized_epochs:
  assumes "numpy_ok E" and "tf_ok E"
    and "for_in [0..<k] (epoch E self hams) (train_init E self d0 c0 rng0 files0) = Inr s"
  shows "length (initial_params s) = 10 * layers self * nqubits self + 2 * nqubits self"
proof -
  have "triple (params_sized self) (for_in [0..<k] (epoch E self hams)) (params_sized self) (\<lambda>e. True)"
    by (rule triple_for_in[where I = "\<lambda>k. params_sized self"]) (rule params_sized_epoch[OF assms(2)])
  moreover have "params_sized self (train_init E self d0 c0 rng0 files0)"
    using assms(1) by (simp add: params_sized_def train_init_def Let_def numpy_ok_def)
  ultimately have "case for_in [0..<k] (epoch E self hams) (train_init E self d0 c0 rng0 files0) of
                     Inl e \<Rightarrow> True | Inr s' \<Rightarrow> params_sized self s'"
    by (rule tripleD)
  with assms(3) show ?thesis by (simp add: params_sized_def)
qed

text \<open>
  C9. \<open>train\<close> takes no parameter vector: it draws one with
  \<^verbatim>\<open>np.random.uniform(-0.15, 0.15, 10*layers*nqubits + 2*nqubits)\<close>, whose entries lie in
  \<open>[-0.15, 0.15]\<close>, and before every epoch (after any number \<open>k\<close> of epochs) the vector has
  this length, since the optimizer keeps the shape of the variable. \<open>execute\<close>, whose
  arguments are the model object, the random generator and the disk, builds the observables
  and runs the epochs from that initial state (\<open>train\<close> raises \<open>OverflowError\<close> first when
  \<^verbatim>\<open>self.batch_samples / 2\<close> does not fit a double).
\<close>

theorem train_creates_parameter_vector:
  assumes "numpy_ok E" and "tf_ok E"
  shows "initial_params (train_init E self d0 c0 rng0 files0) =
           fst (uniform E (- 0.15) 0.15 (10 * layers self * nqubits self + 2 * nqubits self) rng0) \<and>
         (\<forall>v\<in>set (initial_params (train_init E self d0 c0 rng0 files0)). - 0.15 \<le> v \<and> v \<le> 0.15) \<and>
         (\<forall>k s. for_in [0..<k] (epoch E self hams) (train_init E self d0 c0 rng0 files0) = Inr s \<longrightarrow>
            length (initial_params s) = 10 * layers self * nqubits self + 2 * nqubits self) \<and>
         execute E self rng0 files0 =
           and_then (collect (hamiltonian (nqubits self)) [0..<nqubits self]) (\<lambda>hs.
             if 2 ^ 1024 \<le> half_samples self then Inl OverflowError
             else for_in [0..<n_epochs self] (epoch E self hs)
                    (train_init E self (define_discriminator E (nqubits self))
                       (circuit_template (layers self) (nqubits self)) rng0 files0))"
proof (intro conjI allI impI)
  show "initial_params (train_init E self d0 c0 rng0 files0) =
           fst (uniform E (- 0.15) 0.15 (10 * layers self * nqubits self + 2 * nqubits self) rng0)"
    by (simp add: train_init_def Let_def)
  have "(- 0.15 :: real) \<le> 0.15" by simp
  then have "\<forall>v\<in>set (fst (uniform E (- 0.15) 0.15
                 (10 * layers self * nqubits self + 2 * nqubits self) rng0)). - 0.15 \<le> v \<and> v \<le> 0.15"
    using assms(1) unfolding numpy_ok_def by blast
  then show "\<forall>v\<in>set (initial_params (train_init E self d0 c0 rng0 files0)). - 0.15 \<le> v \<and> v \<le> 0.15"
    by (simp add: train_init_def Let_def)
  show "execute E self rng0 files0 =
           and_then (collect (hamiltonian (nqubits self)) [0..<nqubits self]) (\<lambda>hs.
             if 2 ^ 1024 \<le> half_samples self then Inl OverflowError
             else for_in [0..<n_epochs self] (epoch E self hs)
                    (train_init E self (define_discriminator E (nqubits self))
                       (circuit_template (layers self) (nqubits self)) rng0 files0))"
    by (rule execute_unfold)
next
  fix k s assume "for_in [0..<k] (epoch E self hams) (train_init E self d0 c0 rng0 files0) = Inr s"
  from params_sized_epochs[OF assms this]
  show "length (initial_params s) = 10 * layers self * nqubits self + 2 * nqubits self" .
qed

text \<open>The small configuration: 24 parameters at the start and after two epochs.\<close>

theorem train_creates_parameter_vector_witness:
  "length (initial_params demo_start) = 24 \<and>
   initial_params demo_start = fst (uniform demo_env (- 0.15) 0.15 24 ()) \<and>
   (\<exists>s. for_in [0..<2] (epoch demo_env demo_model demo_hams) demo_start = Inr s \<and>
        length (initial_params s) = 24)"
proof -
  note c = train_creates_parameter_vector[OF demo_numpy_ok demo_tf_ok,
      of demo_model "()" "circuit_template 1 2" "()" Map.empty demo_hams, folded demo_start_def]
  have n: "10 * layers demo_model * nqubits demo_model + 2 * nqubits demo_model = 24"
    by (simp add: demo_model_def)
  from epochs_return[OF demo_numpy_ok demo_tf_ok demo_trainable demo_start_inv, of 2]
  obtain s where s: "for_in [0..<2] (epoch demo_env demo_model demo_hams) demo_start = Inr s"
    by blast
  with c have "length (initial_params s) = 24"
    unfolding n by blast
  moreover have "initial_params demo_start = fst (uniform demo_env (- 0.15) 0.15 24 ())"
    using c unfolding n by blast
  moreover have "length (initial_params demo_start) = 24"
    using demo_start_inv by (simp add: train_inv_def demo_model_def)
  ultimately show ?thesis
    using s by blast
qed

subsection \<open>Configuration errors\<close>

text \<open>A reference of four samples, each a block of two by three entries, and the model
  object the constructor builds from it.\<close>

definition cube_reference :: ndarray where
  "cube_reference = \<lparr>nd_shape = [4, 2, 3],
     nd_data = [1, 2, 3, 4, 5, 6, 7, 8, 9, 10, 11, 12, 13, 14, 15, 16, 17, 18, 19, 20,
                21, 22, 23, 24]\<rparr>"

definition cube_model :: qgan where
  "cube_model = \<lparr>reference = cube_reference, nqubits = 2, layers = 1, latent_dim = 1,
     training_samples = 4, batch_samples = 4, n_epochs = 1, lr = 1 / 2\<rparr>"

lemma cube_trainable: "trainable cube_model demo_hams"
  by (simp add: trainable_def cube_model_def demo_hams_def cube_reference_def half_samples_small)

lemma cube_execute:
  "case execute demo_env cube_model () Map.empty of Inl e \<Rightarrow> False
   | Inr s \<Rightarrow> length (d_loss s) = 1 \<and> length (initial_params s) = 24"
proof -
  have n: "nqubits cube_model = 2" "layers cube_model = 1" "n_epochs cube_model = 1"
    by (simp_all add: cube_model_def)
  have t: "angle_slots (circuit_template 1 2) = 5 * layers cube_model * nqubits cube_model + nqubits cube_model"
    using length_circuit_template[of 2 1] by (simp add: angle_slots_length n)
  from train_returns[OF demo_numpy_ok demo_tf_ok cube_trainable t]
  obtain s where s: "train demo_env cube_model (define_discriminator demo_env 2)
                       (circuit_template 1 2) demo_hams () Map.empty = Inr s"
    by blast
  have e: "execute demo_env cube_model () Map.empty = Inr s"
    using s by (simp add: execute_def Let_def n demo_hams_built)
  have "length (d_loss s) = 1"
    using loss_count_train[OF s] by (simp add: n)
  moreover have "for_in [0..<n_epochs cube_model] (epoch demo_env cube_model demo_hams)
      (train_init demo_env cube_model (define_discriminator demo_env 2) (circuit_template 1 2) ()
         Map.empty) = Inr s"
    using s by (simp add: train_def split: if_splits)
  from params_sized_epochs[OF demo_numpy_ok demo_tf_ok this]
  have "length (initial_params s) = 24"
    by (simp add: n)
  ultimately show ?thesis
    by (simp add: e)
qed

text \<open>
  C8, as stated, fails: a reference whose samples are blocks of two by three entries (six
  values per sample, for two qubits) passes the constructor and the rest of the setup, and
  the first epoch hands rows of six entries to the discriminator built for two inputs. With
  collaborators that return, the model even completes the epoch; nothing in the modelled
  code rejects the reference before the epoch starts.
\<close>

theorem setup_accepts_mismatched_reference:
  "qGAN_init cube_reference 1 1 4 1 (1 / 2) = Inr cube_model \<and>
   nqubits cube_model = 2 \<and> row_size (reference cube_model) = 6 \<and>
   collect (hamiltonian (nqubits cube_model)) [0..<nqubits cube_model] = Inr demo_hams \<and>
   generate_real_samples demo_env (half_samples cube_model) (reference cube_model)
       (training_samples cube_model) () =
     Inr (([[1, 2, 3, 4, 5, 6], [1, 2, 3, 4, 5, 6]], [[1], [1]]), ()) \<and>
   (case execute demo_env cube_model () Map.empty of Inl e \<Rightarrow> False
    | Inr s \<Rightarrow> length (d_loss s) = 1 \<and> length (initial_params s) = 24)"
proof (intro conjI)
  show "qGAN_init cube_reference 1 1 4 1 (1 / 2) = Inr cube_model"
    by (simp add: qGAN_init_def shape_at_def cube_reference_def cube_model_def)
  show "nqubits cube_model = 2"
    by (simp add: cube_model_def)
  show "row_size (reference cube_model) = 6"
    by (simp add: cube_model_def cube_reference_def row_size_def)
  show "collect (hamiltonian (nqubits cube_model)) [0..<nqubits cube_model] = Inr demo_hams"
    using demo_hams_built by (simp add: cube_model_def)
  show "generate_real_samples demo_env (half_samples cube_model) (reference cube_model)
       (training_samples cube_model) () =
     Inr (([[1, 2, 3, 4, 5, 6], [1, 2, 3, 4, 5, 6]], [[1], [1]]), ())"
  proof -
    have r: "replicate 2 (0::nat) = [0, 0]" "replicate 2 [1::real] = [[1], [1]]"
      by (simp_all add: numeral_2_eq_2)
    show ?thesis
      by (simp add: generate_real_samples_def cube_model_def cube_reference_def half_samples_small
          demo_env_def nd_row_def row_size_def np_ones_def r)
  qed
  show "case execute demo_env cube_model () Map.empty of Inl e \<Rightarrow> False
    | Inr s \<Rightarrow> length (d_loss s) = 1 \<and> length (initial_params s) = 24"
    by (rule cube_execute)
qed

text \<open>
  C8, amended. The constructor raises \<open>IndexError\<close> at \<^verbatim>\<open>reference.shape[1]\<close> for a
  reference with fewer than two axes, before anything else runs, and accepts every other
  reference, taking \<open>nqubits\<close> and \<open>training_samples\<close> from its shape. A parameter vector
  of the wrong length cannot arise: \<open>train\<close> draws it with the length
  \<open>10*layers*nqubits + 2*nqubits\<close>, twice the number of angle slots of the template.
\<close>

theorem constructor_checks_only_the_second_axis:
  "(length (nd_shape ref) < 2 \<longrightarrow> qGAN_init ref l ld bs ne rate = Inl (ShapeIndexError 1)) \<and>
   (2 \<le> length (nd_shape ref) \<longrightarrow>
      qGAN_init ref l ld bs ne rate =
        Inr \<lparr>reference = ref, nqubits = nd_shape ref ! 1, layers = l, latent_dim = ld,
             training_samples = nd_shape ref ! 0, batch_samples = bs, n_epochs = ne, lr = rate\<rparr>) \<and>
   (numpy_ok E \<longrightarrow>
      length (initial_params (train_init E self d0 c0 rng0 files0)) =
        10 * layers self * nqubits self + 2 * nqubits self \<and>
      (1 \<le> nqubits self \<longrightarrow>
         length (initial_params (train_init E self d0 c0 rng0 files0)) =
           2 * angle_slots (circuit_template (layers self) (nqubits self))))"
proof (intro conjI impI)
  assume "length (nd_shape ref) < 2"
  then show "qGAN_init ref l ld bs ne rate = Inl (ShapeIndexError 1)"
    by (simp add: qGAN_init_def shape_at_def)
next
  assume "2 \<le> length (nd_shape ref)"
  then show "qGAN_init ref l ld bs ne rate =
        Inr \<lparr>reference = ref, nqubits = nd_shape ref ! 1, layers = l, latent_dim = ld,
             training_samples = nd_shape ref ! 0, batch_samples = bs, n_epochs = ne, lr = rate\<rparr>"
    by (auto simp: qGAN_init_def shape_at_def)
next
  assume ok: "numpy_ok E"
  then show len: "length (initial_params (train_init E self d0 c0 rng0 files0)) =
        10 * layers self * nqubits self + 2 * nqubits self"
    by (simp add: train_init_def Let_def numpy_ok_def)
  assume "1 \<le> nqubits self"
  from length_circuit_template[OF this, of "layers self"] len
  show "length (initial_params (train_init E self d0 c0 rng0 files0)) =
           2 * angle_slots (circuit_template (layers self) (nqubits self))"
    by (simp add: angle_slots_length)
qed

text \<open>A reference with one axis, the small reference, and the small configuration.\<close>

theorem constructor_checks_only_the_second_axis_witness:
  "qGAN_init \<lparr>nd_shape = [5], nd_data = [1, 2, 3, 4, 5]\<rparr> 1 1 4 1 (1 / 2) = Inl (ShapeIndexError 1) \<and>
   qGAN_init demo_reference 1 1 4 2 (1 / 2) = Inr demo_model \<and>
   length (initial_params demo_start) = 24 \<and>
   length (initial_params demo_start) = 2 * angle_slots (circuit_template 1 2)"
proof -
  note one = constructor_checks_only_the_second_axis[of "\<lparr>nd_shape = [5], nd_data = [1, 2, 3, 4, 5]\<rparr>"
        1 1 4 1 "1 / 2" demo_env demo_model "()" "circuit_template 1 2" "()" Map.empty]
  note two = constructor_checks_only_the_second_axis[of demo_reference
        1 1 4 2 "1 / 2" demo_env demo_model "()" "circuit_template 1 2" "()" Map.empty]
  have a: "qGAN_init \<lparr>nd_shape = [5], nd_data = [1, 2, 3, 4, 5]\<rparr> 1 1 4 1 (1 / 2) = Inl (ShapeIndexError 1)"
    using one by simp
  have b: "qGAN_init demo_reference 1 1 4 2 (1 / 2) = Inr demo_model"
    using two by (simp add: demo_reference_def demo_model_def)
  have c: "length (initial_params demo_start) = 24 \<and>
           length (initial_params demo_start) = 2 * angle_slots (circuit_template 1 2)"
    using two demo_numpy_ok by (simp add: demo_start_def demo_model_def)
  from a b c show ?thesis by simp
qed

section \<open>The instrument driver: \<open>IcarusQ.download\<close>\<close>

text \<open>The static parameters of the class that \<^verbatim>\<open>download\<close> uses.\<close>

definition nchannels :: nat where
  "nchannels = 4"

definition sample_size :: nat where
  "sample_size = 32000"

text \<open>
  What \<^verbatim>\<open>np.genfromtxt(dump, delimiter=',')\<close> returns: an array of no axis (a single
  field), one axis (one line of fields) or two (several lines).
\<close>

datatype parsed = Scalar real | Vector "real list" | Matrix "real list list"

text \<open>The slice \<^verbatim>\<open>[:-1]\<close>: an array without axes cannot be sliced.\<close>

fun drop_last :: "parsed \<Rightarrow> error + parsed" where
  "drop_last (Scalar x) = Inl ArrayIndexError"
| "drop_last (Vector v) = Inr (Vector (butlast v))"
| "drop_last (Matrix m) = Inr (Matrix (butlast m))"

text \<open>
  The assignment \<^verbatim>\<open>waveform[i] = value\<close> to a row of \<open>n\<close> entries: numpy copies a value
  of \<open>n\<close> entries, repeats a single entry, accepts a leading axis of length one, and raises
  \<open>ValueError\<close> for any other shape.
\<close>

definition broadcast_vector :: "nat \<Rightarrow> real list \<Rightarrow> error + real list" where
  "broadcast_vector n v =
     (if length v = n then Inr v
      else if length v = 1 then Inr (replicate n (hd v))
      else Inl ValueError)"

fun broadcast_row :: "nat \<Rightarrow> parsed \<Rightarrow> error + real list" where
  "broadcast_row n (Scalar x) = Inr (replicate n x)"
| "broadcast_row n (Vector v) = broadcast_vector n v"
| "broadcast_row n (Matrix m) = (if length m = 1 then broadcast_vector n (hd m) else Inl ValueError)"

text \<open>
  The state of the loop of \<^verbatim>\<open>download\<close>: the matrix, the contents of the buffer \<open>dump\<close>
  and the connection. The transfer \<^verbatim>\<open>sftp.getfo(dump)\<close> belongs to
  \<^verbatim>\<open>qibo.hardware.connections\<close>, which is not part of the sources, and
  \<^verbatim>\<open>np.genfromtxt\<close> to numpy: both are parameters, and both may raise.
\<close>

record 'c download_state =
  waveform :: "real list list"
  dump :: string
  connection :: 'c

definition download_channel ::
  "('c \<Rightarrow> string \<Rightarrow> error + string \<times> 'c) \<Rightarrow> (string \<Rightarrow> error + parsed) \<Rightarrow> nat \<Rightarrow>
     'c download_state \<Rightarrow> error + 'c download_state" where
  "download_channel getfo genfromtxt i s =
     and_then (getfo (connection s) (dump s)) (\<lambda>(fetched, c).
     and_then (genfromtxt fetched) (\<lambda>arr.
     and_then (drop_last arr) (\<lambda>sliced.
     and_then (broadcast_row sample_size sliced) (\<lambda>row.
       if i < length (waveform s)
       then Inr (s\<lparr>waveform := (waveform s)[i := row], dump := fetched, connection := c\<rparr>)
       else Inl ArrayIndexError))))"

definition download_init :: "'c \<Rightarrow> 'c download_state" where
  "download_init c0 =
     \<lparr>waveform = replicate nchannels (replicate sample_size 0), dump = [], connection = c0\<rparr>"

definition download ::
  "('c \<Rightarrow> string \<Rightarrow> error + string \<times> 'c) \<Rightarrow> (string \<Rightarrow> error + parsed) \<Rightarrow> 'c \<Rightarrow>
     error + real list list" where
  "download getfo genfromtxt c0 =
     and_then (for_in [0..<nchannels] (download_channel getfo genfromtxt) (download_init c0))
       (\<lambda>s. Inr (waveform s))"


lemma broadcast_vector_length:
  assumes "broadcast_vector n v = Inr row"
  shows "length row = n"
  using assms by (auto simp: broadcast_vector_def split: if_splits)

lemma broadcast_row_length:
  assumes "broadcast_row n a = Inr row"
  shows "length row = n"
  using assms by (cases a) (auto dest: broadcast_vector_length split: if_splits)

definition rows_sized :: "'c download_state \<Rightarrow> bool" where
  "rows_sized s \<longleftrightarrow> length (waveform s) = nchannels \<and> (\<forall>row\<in>set (waveform s). length row = sample_size)"

lemma download_channel_Inr:
  assumes "download_channel getfo genfromtxt i s = Inr s'"
  obtains fetched arr sliced row where
    "getfo (connection s) (dump s) = Inr (fetched, connection s')"
    and "genfromtxt fetched = Inr arr" and "drop_last arr = Inr sliced"
    and "broadcast_row sample_size sliced = Inr row"
    and "i < length (waveform s)" and "waveform s' = (waveform s)[i := row]"
  using assms unfolding download_channel_def
  by (auto simp: and_then_Inr_iff split: if_splits)

lemma rows_sized_channel:
  "triple rows_sized (download_channel getfo genfromtxt i) rows_sized (\<lambda>e. True)"
proof (rule tripleI)
  fix s :: "'a download_state" assume s: "rows_sized s"
  show "case download_channel getfo genfromtxt i s of Inl e \<Rightarrow> True | Inr s' \<Rightarrow> rows_sized s'"
  proof (cases "download_channel getfo genfromtxt i s")
    case (Inl e)
    then show ?thesis by simp
  next
    case (Inr s')
    then obtain sliced row where r: "broadcast_row sample_size sliced = Inr row"
      and w: "waveform s' = (waveform s)[i := row]"
      by (rule download_channel_Inr)
    have len: "length row = sample_size"
      using broadcast_row_length[OF r] .
    have "length r = sample_size" if "r \<in> set (waveform s')" for r
    proof -
      have "r \<in> insert row (set (waveform s))"
        using that set_update_subset_insert[of "waveform s" i row] unfolding w by blast
      then show ?thesis
        using len s by (auto simp: rows_sized_def)
    qed
    moreover have "length (waveform s') = nchannels"
      using s w by (simp add: rows_sized_def)
    ultimately have "rows_sized s'"
      by (simp add: rows_sized_def)
    with Inr show ?thesis by simp
  qed
qed

lemma download_rows_sized:
  assumes "download getfo genfromtxt c0 = Inr w"
  shows "length w = nchannels \<and> (\<forall>row\<in>set w. length row = sample_size)"
proof -
  have "triple rows_sized (for_in [0..<nchannels] (download_channel getfo genfromtxt)) rows_sized (\<lambda>e. True)"
    by (rule triple_for_in[where I = "\<lambda>k. rows_sized"]) (rule rows_sized_channel)
  moreover have "rows_sized (download_init c0)"
    by (simp add: rows_sized_def download_init_def)
  ultimately have "case for_in [0..<nchannels] (download_channel getfo genfromtxt) (download_init c0) of
      Inl e \<Rightarrow> True | Inr s \<Rightarrow> rows_sized s"
    by (rule tripleD)
  with assms show ?thesis
    by (auto simp: download_def and_then_Inr_iff rows_sized_def)
qed

lemma later_channels_keep_row:
  assumes "block (map (download_channel getfo genfromtxt) ks) s = Inr s'" and "i \<notin> set ks"
  shows "waveform s' ! i = waveform s ! i"
  using assms
proof (induction ks arbitrary: s)
  case Nil
  then show ?case by simp
next
  case (Cons k ks)
  from Cons.prems(1) obtain s1 where k: "download_channel getfo genfromtxt k s = Inr s1"
    and rest: "block (map (download_channel getfo genfromtxt) ks) s1 = Inr s'"
    by (auto split: sum.splits)
  from k obtain row where "waveform s1 = (waveform s)[k := row]"
    by (rule download_channel_Inr)
  moreover have "k \<noteq> i" using Cons.prems(2) by auto
  ultimately have "waveform s1 ! i = waveform s ! i" by simp
  moreover have "waveform s' ! i = waveform s1 ! i"
    using Cons.IH[OF rest] Cons.prems(2) by simp
  ultimately show ?case by simp
qed

lemma download_returns:
  assumes "\<forall>c d. \<exists>t c'. getfo c d = Inr (t, c') \<and>
             (\<exists>v. genfromtxt t = Inr (Vector v) \<and> length v = sample_size + 1)"
  shows "\<exists>w. download getfo genfromtxt c0 = Inr w"
proof -
  have step: "triple rows_sized (download_channel getfo genfromtxt i) rows_sized (\<lambda>e. False)"
    if "i < nchannels" for i
  proof (rule tripleI)
    fix s :: "'a download_state" assume s: "rows_sized s"
    from assms obtain t c' v where g: "getfo (connection s) (dump s) = Inr (t, c')"
      and p: "genfromtxt t = Inr (Vector v)" and l: "length v = sample_size + 1"
      by blast
    have b: "broadcast_row sample_size (Vector (butlast v)) = Inr (butlast v)"
      using l by (simp add: broadcast_vector_def)
    have i: "i < length (waveform s)"
      using s that by (simp add: rows_sized_def)
    have r: "download_channel getfo genfromtxt i s =
        Inr (s\<lparr>waveform := (waveform s)[i := butlast v], dump := t, connection := c'\<rparr>)"
      unfolding download_channel_def using i by (simp add: g p b del: broadcast_row.simps)
    from tripleD[OF rows_sized_channel s, of getfo genfromtxt i] r
    show "case download_channel getfo genfromtxt i s of Inl e \<Rightarrow> False | Inr s' \<Rightarrow> rows_sized s'"
      by simp
  qed
  have loop: "triple rows_sized (for_in [0..<nchannels] (download_channel getfo genfromtxt)) rows_sized (\<lambda>e. False)"
    by (rule triple_for_in[where I = "\<lambda>k. rows_sized"]) (rule step)
  have init: "rows_sized (download_init c0)"
    by (simp add: rows_sized_def download_init_def)
  from triple_returns[OF loop init]
  obtain s where "for_in [0..<nchannels] (download_channel getfo genfromtxt) (download_init c0) = Inr s"
    by blast
  then show ?thesis
    by (simp add: download_def)
qed


lemma for_in_split:
  assumes "for_in [0..<n] body s = Inr s'" and "k < n"
  shows "\<exists>sk sk'. for_in [0..<k] body s = Inr sk \<and> body k sk = Inr sk' \<and>
           block (map body [Suc k..<n]) sk' = Inr s'"
proof -
  have "[0..<n] = [0..<Suc k] @ [Suc k..<n]"
    using assms(2) upt_add_eq_append[of 0 "Suc k" "n - Suc k"] by simp
  then have "for_in [0..<n] body s =
      (case block (map body [0..<Suc k]) s of Inl e \<Rightarrow> Inl e | Inr t \<Rightarrow> block (map body [Suc k..<n]) t)"
    by (simp only: for_in_def map_append block_append)
  with assms(1) obtain sk' where sk': "block (map body [0..<Suc k]) s = Inr sk'"
    and rest: "block (map body [Suc k..<n]) sk' = Inr s'"
    by (auto split: sum.splits)
  from sk' obtain sk where "for_in [0..<k] body s = Inr sk" and "body k sk = Inr sk'"
    by (auto simp: for_in_def block_append split: sum.splits)
  with rest show ?thesis by blast
qed

lemma download_channel_row:
  assumes run: "for_in [0..<nchannels] (download_channel getfo genfromtxt) (download_init c0) = Inr s_end"
    and i: "i < nchannels"
  shows "\<exists>s s' fetched arr sliced.
           for_in [0..<i] (download_channel getfo genfromtxt) (download_init c0) = Inr s \<and>
           download_channel getfo genfromtxt i s = Inr s' \<and>
           getfo (connection s) (dump s) = Inr (fetched, connection s') \<and>
           genfromtxt fetched = Inr arr \<and> drop_last arr = Inr sliced \<and>
           broadcast_row sample_size sliced = Inr (waveform s_end ! i) \<and>
           (\<forall>v. arr = Vector v \<and> length v = sample_size + 1 \<longrightarrow> waveform s_end ! i = butlast v)"
proof -
  from for_in_split[OF run i] obtain s s' where
    p: "for_in [0..<i] (download_channel getfo genfromtxt) (download_init c0) = Inr s"
    and c: "download_channel getfo genfromtxt i s = Inr s'"
    and rest: "block (map (download_channel getfo genfromtxt) [Suc i..<nchannels]) s' = Inr s_end"
    by blast
  from c obtain fetched arr sliced row where
    g: "getfo (connection s) (dump s) = Inr (fetched, connection s')"
    and a: "genfromtxt fetched = Inr arr" and d: "drop_last arr = Inr sliced"
    and b: "broadcast_row sample_size sliced = Inr row"
    and il: "i < length (waveform s)" and w: "waveform s' = (waveform s)[i := row]"
    by (rule download_channel_Inr)
  have "waveform s_end ! i = waveform s' ! i"
    by (rule later_channels_keep_row[OF rest]) simp
  then have row: "waveform s_end ! i = row"
    using w il by simp
  have last: "waveform s_end ! i = butlast v" if "arr = Vector v" and "length v = sample_size + 1" for v
  proof -
    have "sliced = Vector (butlast v)"
      using d that(1) by simp
    then have "row = butlast v"
      using b that(2) by (simp add: broadcast_vector_def)
    with row show ?thesis by simp
  qed
  show ?thesis
  proof (intro exI conjI allI impI)
    show "for_in [0..<i] (download_channel getfo genfromtxt) (download_init c0) = Inr s"
      by (rule p)
    show "download_channel getfo genfromtxt i s = Inr s'"
      by (rule c)
    show "getfo (connection s) (dump s) = Inr (fetched, connection s')"
      by (rule g)
    show "genfromtxt fetched = Inr arr"
      by (rule a)
    show "drop_last arr = Inr sliced"
      by (rule d)
    show "broadcast_row sample_size sliced = Inr (waveform s_end ! i)"
      using b row by simp
    show "waveform s_end ! i = butlast v" if "arr = Vector v \<and> length v = sample_size + 1" for v
      using last that by blast
  qed
qed

text \<open>
  C10. Every matrix that \<open>download\<close> returns has \<open>nchannels = 4\<close> rows of
  \<open>sample_size = 32000\<close> entries, whatever is fetched; row \<open>i\<close> is what channel \<open>i\<close>
  stored: the text fetched in iteration \<open>i\<close>, parsed, without its last parsed entry
  (\<open>drop_last\<close>), so for a line of \<open>sample_size + 1\<close> fields the first \<open>sample_size\<close> of
  them. \<open>download\<close> returns when every transfer returns a line of \<open>sample_size + 1\<close> fields
  (a transfer or a parse that raises, or a line of another length that numpy cannot
  broadcast into the row, makes it raise instead).
\<close>

theorem download_returns_four_rows_without_last_entry:
  "(\<forall>w. download getfo genfromtxt c0 = Inr w \<longrightarrow>
      length w = nchannels \<and> (\<forall>row\<in>set w. length row = sample_size) \<and>
      (\<forall>i<nchannels. \<exists>s s' fetched arr sliced.
           for_in [0..<i] (download_channel getfo genfromtxt) (download_init c0) = Inr s \<and>
           download_channel getfo genfromtxt i s = Inr s' \<and>
           getfo (connection s) (dump s) = Inr (fetched, connection s') \<and>
           genfromtxt fetched = Inr arr \<and> drop_last arr = Inr sliced \<and>
           broadcast_row sample_size sliced = Inr (w ! i) \<and>
           (\<forall>v. arr = Vector v \<and> length v = sample_size + 1 \<longrightarrow> w ! i = butlast v))) \<and>
   ((\<forall>c d. \<exists>t c'. getfo c d = Inr (t, c') \<and>
        (\<exists>v. genfromtxt t = Inr (Vector v) \<and> length v = sample_size + 1)) \<longrightarrow>
      (\<exists>w. download getfo genfromtxt c0 = Inr w)) \<and>
   nchannels = 4 \<and> sample_size = 32000"
proof (intro conjI allI impI)
  fix w assume w: "download getfo genfromtxt c0 = Inr w"
  from download_rows_sized[OF w]
  show "length w = nchannels" and "\<forall>row\<in>set w. length row = sample_size"
    by simp_all
  fix i assume i: "i < nchannels"
  from w obtain s_end where
    run: "for_in [0..<nchannels] (download_channel getfo genfromtxt) (download_init c0) = Inr s_end"
    and e: "w = waveform s_end"
    by (auto simp: download_def and_then_Inr_iff)
  from download_channel_row[OF run i]
  show "\<exists>s s' fetched arr sliced.
           for_in [0..<i] (download_channel getfo genfromtxt) (download_init c0) = Inr s \<and>
           download_channel getfo genfromtxt i s = Inr s' \<and>
           getfo (connection s) (dump s) = Inr (fetched, connection s') \<and>
           genfromtxt fetched = Inr arr \<and> drop_last arr = Inr sliced \<and>
           broadcast_row sample_size sliced = Inr (w ! i) \<and>
           (\<forall>v. arr = Vector v \<and> length v = sample_size + 1 \<longrightarrow> w ! i = butlast v)"
    unfolding e .
next
  assume "\<forall>c d. \<exists>t c'. getfo c d = Inr (t, c') \<and>
        (\<exists>v. genfromtxt t = Inr (Vector v) \<and> length v = sample_size + 1)"
  then show "\<exists>w. download getfo genfromtxt c0 = Inr w"
    by (rule download_returns)
next
  show "nchannels = 4" by (simp add: nchannels_def)
  show "sample_size = 32000" by (simp add: sample_size_def)
qed

text \<open>Four transfers of a line of 32001 fields.\<close>

theorem download_returns_four_rows_without_last_entry_witness:
  "\<exists>w. download (\<lambda>c d. Inr (''1,2,'', c)) (\<lambda>t. Inr (Vector (replicate 32001 7))) () = Inr w \<and>
        length w = 4 \<and> (\<forall>row\<in>set w. length row = 32000) \<and>
        w ! 0 = butlast (replicate 32001 7)"
proof -
  let ?getfo = "\<lambda>(c::unit) (d::string). Inr (''1,2,'', c) :: error + string \<times> unit"
  let ?parse = "\<lambda>t::string. Inr (Vector (replicate 32001 7)) :: error + parsed"
  note c = download_returns_four_rows_without_last_entry[of ?getfo ?parse "()"]
  have l: "length (replicate 32001 (7::real)) = sample_size + 1"
    by (simp add: sample_size_def)
  have hyp: "\<forall>c d. \<exists>t c'. ?getfo c d = Inr (t, c') \<and>
          (\<exists>v. ?parse t = Inr (Vector v) \<and> length v = sample_size + 1)"
    using l by blast
  from c[THEN conjunct2, THEN conjunct1, THEN mp, OF hyp]
  obtain w where w: "download ?getfo ?parse () = Inr w" ..
  note cw = c[THEN conjunct1, rule_format, OF w]
  have len: "length w = nchannels"
    by (rule cw[THEN conjunct1])
  have rows: "\<forall>row\<in>set w. length row = sample_size"
    by (rule cw[THEN conjunct2, THEN conjunct1])
  have ch: "\<forall>i<nchannels. \<exists>s s' fetched arr sliced.
           for_in [0..<i] (download_channel ?getfo ?parse) (download_init ()) = Inr s \<and>
           download_channel ?getfo ?parse i s = Inr s' \<and>
           ?getfo (connection s) (dump s) = Inr (fetched, connection s') \<and>
           ?parse fetched = Inr arr \<and> drop_last arr = Inr sliced \<and>
           broadcast_row sample_size sliced = Inr (w ! i) \<and>
           (\<forall>v. arr = Vector v \<and> length v = sample_size + 1 \<longrightarrow> w ! i = butlast v)"
    by (rule cw[THEN conjunct2, THEN conjunct2])
  have pos: "0 < nchannels" by (simp add: nchannels_def)
  from ch[THEN spec, of 0, THEN mp, OF pos]
  obtain arr where a: "Inr (Vector (replicate 32001 7)) = (Inr arr :: error + parsed)"
    and v: "\<forall>v. arr = Vector v \<and> length v = sample_size + 1 \<longrightarrow> w ! 0 = butlast v"
    by (elim exE conjE)
  have arr: "arr = Vector (replicate 32001 7)"
    using a by (simp only: sum.inject)
  have first: "w ! 0 = butlast (replicate 32001 7)"
    by (rule v[THEN spec, of "replicate 32001 7", THEN mp]) (intro conjI arr l)
  have "length w = 4"
    using len by (simp only: nchannels_def)
  moreover have "\<forall>row\<in>set w. length row = 32000"
    using rows by (simp only: sample_size_def)
  ultimately show ?thesis
    using w first by (intro exI[of _ w] conjI)
qed

end
